theory Spec2Isabelle
  imports Main "HOL-Library.Sublist" "HOL-Library.Char_ord" "HOL-Library.Multiset"
begin

section \<open>The bookmark manager: data model\<close>

text \<open>
  A shallow embedding of the bookmark reconciliation, persistence, classification and
  import/export code of the application component and of \<open>utils/detectUrlType\<close>.

  Strings are HOL strings; a \<open>char\<close> stands for one code unit of a JavaScript string.
  A value produced by \<open>JSON.parse\<close> is a \<open>json\<close> tree. Nothing in the code computes with
  numbers read from JSON: it only asks for their \<open>typeof\<close> and for \<open>String(x)\<close>, so a number
  is represented by the text \<open>String(x)\<close> renders. An object is the list of its own
  properties in insertion order.
\<close>

datatype json =
    JNull
  | JBool bool
  | JNum string
  | JStr string
  | JArr "json list"
  | JObj "(string \<times> json) list"

text \<open>\<open>hostname\<close> and \<open>pathname\<close> are the only two parts of a parsed URL the code reads.\<close>

record URL =
  hostname :: string
  pathname :: string

text \<open>
  The browser built-ins the code calls are parameters of the model, collected in one
  record: the theorems hold for every platform. \<open>None\<close> stands for the exception of
  \<open>JSON.parse\<close> and of \<open>new URL\<close>, and for the \<open>NaN\<close> of \<open>Date.parse\<close>;
  \<open>new Date(s).getTime()\<close> is \<open>Date.parse(s)\<close> for a string \<open>s\<close>. The two sources of
  fresh values, \<open>crypto.randomUUID()\<close> and \<open>new Date().toISOString()\<close>, are oracles
  indexed by the number of calls already made; the code threads that counter.
\<close>

record platform =
  JSON_parse :: "string \<Rightarrow> json option"
  JSON_stringify :: "json \<Rightarrow> string"
  URL_new :: "string \<Rightarrow> URL option"
  Date_parse :: "string \<Rightarrow> int option"
  trim :: "string \<Rightarrow> string"
  toLowerCase :: "string \<Rightarrow> string"
  randomUUID :: "nat \<Rightarrow> string"
  Date_now_ISO :: "nat \<Rightarrow> string"

text \<open>
  \<open>type Bookmark\<close> of \<open>data/bookmarks.ts\<close>. The field \<open>id\<close> is written \<open>id'\<close>.
  \<open>urlType\<close> is a \<open>json\<close> value: \<open>loadUserBookmarks\<close> keeps whatever non-null value the
  stored record carries.
\<close>

record Bookmark =
  id' :: string
  title :: string
  "url" :: string
  urlType :: json
  tags :: "string list"
  "note" :: string
  savedAt :: string

section \<open>String helpers\<close>

definition startsWith :: "string \<Rightarrow> string \<Rightarrow> bool" where
  "startsWith s p = prefix p s"

definition endsWith :: "string \<Rightarrow> string \<Rightarrow> bool" where
  "endsWith s p = suffix p s"

text \<open>\<open>Array.prototype.join\<close> on an array of strings.\<close>

fun join :: "string \<Rightarrow> string list \<Rightarrow> string" where
  "join sep [] = []"
| "join sep [x] = x"
| "join sep (x # y # ys) = x @ sep @ join sep (y # ys)"

text \<open>\<open>String.prototype.includes\<close>: the needle occurs at some position of the haystack.\<close>

fun String_includes :: "string \<Rightarrow> string \<Rightarrow> bool" where
  "String_includes [] needle = (needle = [])"
| "String_includes (c # cs) needle = (prefix needle (c # cs) \<or> String_includes cs needle)"

section \<open>URL classifier (\<open>utils/detectUrlType\<close>)\<close>

datatype UrlType =
  GoogleDoc | GoogleSheet | MiroBoard | GitHub | ServiceNow | RedHatSource | Generic

text \<open>The string literal each member of the union type \<open>UrlType\<close> is.\<close>

fun UrlType_string :: "UrlType \<Rightarrow> string" where
  "UrlType_string GoogleDoc = ''Google Doc''"
| "UrlType_string GoogleSheet = ''Google Sheet''"
| "UrlType_string MiroBoard = ''Miro Board''"
| "UrlType_string GitHub = ''GitHub''"
| "UrlType_string ServiceNow = ''ServiceNow''"
| "UrlType_string RedHatSource = ''Red Hat Source''"
| "UrlType_string Generic = ''Generic''"

record DetectionRule =
  name :: UrlType
  matches :: "URL \<Rightarrow> bool"

definition rules :: "DetectionRule list" where
  "rules =
    [ \<lparr>name = GoogleDoc,
       matches = (\<lambda>u. hostname u = ''docs.google.com'' \<and> startsWith (pathname u) ''/document/'')\<rparr>,
      \<lparr>name = GoogleSheet,
       matches = (\<lambda>u. hostname u = ''docs.google.com'' \<and> startsWith (pathname u) ''/spreadsheets/'')\<rparr>,
      \<lparr>name = MiroBoard,
       matches = (\<lambda>u. endsWith (hostname u) ''miro.com'' \<and> startsWith (pathname u) ''/app/board/'')\<rparr>,
      \<lparr>name = GitHub,
       matches = (\<lambda>u. hostname u = ''github.com'')\<rparr>,
      \<lparr>name = ServiceNow,
       matches = (\<lambda>u. endsWith (hostname u) ''.service-now.com'')\<rparr>,
      \<lparr>name = RedHatSource,
       matches = (\<lambda>u. hostname u = ''source.redhat.com'')\<rparr> ]"

definition detectUrlType :: "platform \<Rightarrow> string \<Rightarrow> UrlType" where
  "detectUrlType P urlString =
     (case URL_new P urlString of
        None \<Rightarrow> Generic
      | Some u \<Rightarrow>
          (case find (\<lambda>rule. matches rule u) rules of
             Some foundRule \<Rightarrow> name foundRule
           | None \<Rightarrow> Generic))"

section \<open>Reading parsed JSON\<close>

text \<open>
  \<open>typeof v === 'object' && v !== null\<close>: arrays and objects.
\<close>

definition is_object :: "json \<Rightarrow> bool" where
  "is_object v = (case v of JArr xs \<Rightarrow> True | JObj kvs \<Rightarrow> True | _ \<Rightarrow> False)"

text \<open>
  The property read \<open>v.k\<close> for the property names the code uses (\<open>title\<close>, \<open>url\<close>,
  \<open>tags\<close>, \<open>note\<close>, \<open>savedAt\<close>, \<open>id\<close>, \<open>urlType\<close>): \<open>None\<close> is \<open>undefined\<close>. Arrays
  and primitives have no property of these names. Reading a property of \<open>null\<close> throws;
  every caller below either excludes \<open>null\<close> first or has a branch for it.
\<close>

definition getProp :: "json \<Rightarrow> string \<Rightarrow> json option" where
  "getProp v k = (case v of JObj kvs \<Rightarrow> map_of kvs k | _ \<Rightarrow> None)"

text \<open>\<open>k in v\<close> for a non-null object or array \<open>v\<close>.\<close>

definition has_prop :: "string \<Rightarrow> json \<Rightarrow> bool" where
  "has_prop k v = (getProp v k \<noteq> None)"

text \<open>The exception the code can meet when it converts or reads a JSON value.\<close>

datatype exn = TypeError

text \<open>
  \<open>String(v)\<close>. An array renders its elements separated by commas, \<open>null\<close> elements as
  the empty string. An object renders as \<open>[object Object]\<close>, by the \<open>toString\<close> it
  inherits; an object with a property \<open>toString\<close> of its own (no function, since it
  comes from JSON) has no method that yields a primitive, and the conversion throws a
  \<open>TypeError\<close>. \<open>String(undefined)\<close> is \<open>undefined\<close>.
\<close>

fun ToString :: "json \<Rightarrow> exn + string"
  and ToString_elements :: "json list \<Rightarrow> exn + string list"
where
  "ToString JNull = Inr ''null''"
| "ToString (JBool b) = Inr (if b then ''true'' else ''false'')"
| "ToString (JNum r) = Inr r"
| "ToString (JStr s) = Inr s"
| "ToString (JArr xs) =
     (case ToString_elements xs of Inl e \<Rightarrow> Inl e | Inr ss \<Rightarrow> Inr (join '','' ss))"
| "ToString (JObj kvs) =
     (if ''toString'' \<in> set (map fst kvs) then Inl TypeError else Inr ''[object Object]'')"
| "ToString_elements [] = Inr []"
| "ToString_elements (x # xs) =
     (case (if x = JNull then Inr [] else ToString x) of
        Inl e \<Rightarrow> Inl e
      | Inr s \<Rightarrow>
          (case ToString_elements xs of Inl e \<Rightarrow> Inl e | Inr ss \<Rightarrow> Inr (s # ss)))"

definition String_of :: "json option \<Rightarrow> exn + string" where
  "String_of v = (case v of None \<Rightarrow> Inr ''undefined'' | Some x \<Rightarrow> ToString x)"

text \<open>\<open>String(item.k).trim()\<close>.\<close>

definition trimmedText :: "platform \<Rightarrow> json \<Rightarrow> string \<Rightarrow> exn + string" where
  "trimmedText P item k =
     (case String_of (getProp item k) of Inl e \<Rightarrow> Inl e | Inr s \<Rightarrow> Inr (trim P s))"

section \<open>Persistence codec (\<open>loadUserBookmarks\<close>)\<close>

definition STORAGE_KEY :: string where
  "STORAGE_KEY = ''til-bookmarks''"

definition DRAFT_KEY :: string where
  "DRAFT_KEY = STORAGE_KEY @ ''-draft''"

text \<open>The JSON string of a classifier result, as stored in a bookmark.\<close>

definition urlTypeValue :: "UrlType \<Rightarrow> json" where
  "urlTypeValue t = JStr (UrlType_string t)"

text \<open>
  \<open>Array.isArray(x.tags) ? x.tags.filter(tag => typeof tag === 'string' &&
  tag.trim().length > 0) : []\<close>, the expression shared by load and import.
\<close>

definition stringTags :: "platform \<Rightarrow> json option \<Rightarrow> string list" where
  "stringTags P v =
     (case v of
        Some (JArr ts) \<Rightarrow>
          concat (map (\<lambda>t. case t of
                              JStr s \<Rightarrow> (if length (trim P s) > 0 then [s] else [])
                            | _ \<Rightarrow> []) ts)
      | _ \<Rightarrow> [])"

text \<open>
  \<open>typeof x.savedAt === 'string' && !Number.isNaN(Date.parse(x.savedAt)) ? x.savedAt
  : new Date().toISOString()\<close>, with the call counter.
\<close>

definition savedAtOrNow :: "platform \<Rightarrow> nat \<Rightarrow> json option \<Rightarrow> string \<times> nat" where
  "savedAtOrNow P n v =
     (case v of
        Some (JStr s) \<Rightarrow>
          (if Date_parse P s \<noteq> None then (s, n) else (Date_now_ISO P n, Suc n))
      | _ \<Rightarrow> (Date_now_ISO P n, Suc n))"

text \<open>\<open>typeof x.id === 'string' ? x.id : crypto.randomUUID()\<close>, with the call counter.\<close>

definition idOrFresh :: "platform \<Rightarrow> nat \<Rightarrow> json option \<Rightarrow> string \<times> nat" where
  "idOrFresh P n v =
     (case v of
        Some (JStr s) \<Rightarrow> (s, n)
      | _ \<Rightarrow> (randomUUID P n, Suc n))"

text \<open>
  The callback of \<open>.map\<close> in \<open>loadUserBookmarks\<close>. The date and the id are computed
  before the title and the url are converted.
\<close>

definition normalizeStored :: "platform \<Rightarrow> nat \<Rightarrow> json \<Rightarrow> exn + (Bookmark \<times> nat)" where
  "normalizeStored P n item =
     (let tagsV = stringTags P (getProp item ''tags'');
          noteV = (case getProp item ''note'' of Some (JStr s) \<Rightarrow> s | _ \<Rightarrow> []);
          (savedAtV, n1) = savedAtOrNow P n (getProp item ''savedAt'');
          (idV, n2) = idOrFresh P n1 (getProp item ''id'')
      in case trimmedText P item ''title'' of
           Inl e \<Rightarrow> Inl e
         | Inr titleV \<Rightarrow>
             (case trimmedText P item ''url'' of
                Inl e \<Rightarrow> Inl e
              | Inr urlV \<Rightarrow>
                  Inr (\<lparr>id' = idV,
                        title = (if titleV = [] then ''Untitled'' else titleV),
                        url = urlV,
                        urlType = (case getProp item ''urlType'' of
                                     None \<Rightarrow> urlTypeValue (detectUrlType P urlV)
                                   | Some JNull \<Rightarrow> urlTypeValue (detectUrlType P urlV)
                                   | Some t \<Rightarrow> t),
                        tags = tagsV,
                        note = noteV,
                        savedAt = savedAtV\<rparr>, n2)))"

text \<open>
  \<open>.map\<close> with a callback that makes effectful calls and may throw: the counter is
  threaded, and the first exception ends the loop.
\<close>

fun mapTick :: "(nat \<Rightarrow> 'a \<Rightarrow> exn + ('b \<times> nat)) \<Rightarrow> nat \<Rightarrow> 'a list \<Rightarrow> exn + 'b list" where
  "mapTick f n [] = Inr []"
| "mapTick f n (x # xs) =
     (case f n x of
        Inl e \<Rightarrow> Inl e
      | Inr (y, n') \<Rightarrow>
          (case mapTick f n' xs of Inl e \<Rightarrow> Inl e | Inr ys \<Rightarrow> Inr (y # ys)))"

text \<open>
  \<open>localStorage\<close> is a map from keys to stored texts. \<open>!raw\<close> holds for a missing key
  and for the empty text. An exception inside the \<open>try\<close> block, of \<open>JSON.parse\<close> or of a
  conversion in the callback, is caught and gives \<open>[]\<close>.
\<close>

definition loadUserBookmarks :: "platform \<Rightarrow> nat \<Rightarrow> (string \<rightharpoonup> string) \<Rightarrow> Bookmark list" where
  "loadUserBookmarks P n localStorage =
     (case localStorage STORAGE_KEY of
        None \<Rightarrow> []
      | Some raw \<Rightarrow>
          (if raw = [] then []
           else (case JSON_parse P raw of
                   None \<Rightarrow> []
                 | Some (JArr parsed) \<Rightarrow>
                     (case mapTick (normalizeStored P) n
                             (filter (\<lambda>item. is_object item \<and> has_prop ''title'' item
                                              \<and> has_prop ''url'' item) parsed) of
                        Inl e \<Rightarrow> []
                      | Inr normalized \<Rightarrow>
                          filter (\<lambda>item. URL_new P (url item) \<noteq> None) normalized)
                 | Some other \<Rightarrow> [])))"

section \<open>Identity reconciler (\<open>dedupeById\<close>, \<open>combinedBookmarks\<close>)\<close>

text \<open>The loop of \<open>dedupeById\<close>; \<open>seen\<close> is its set of ids met so far.\<close>

fun dedupeLoop :: "string set \<Rightarrow> Bookmark list \<Rightarrow> Bookmark list" where
  "dedupeLoop seen [] = []"
| "dedupeLoop seen (bookmark # bookmarks) =
     (if id' bookmark \<in> seen then dedupeLoop seen bookmarks
      else bookmark # dedupeLoop (insert (id' bookmark) seen) bookmarks)"

definition dedupeById :: "Bookmark list \<Rightarrow> Bookmark list" where
  "dedupeById bookmarks = dedupeLoop {} bookmarks"

text \<open>
  \<open>Array.prototype.sort(compare)\<close> is a stable sort: with a consistent comparator the
  result is the one a stable insertion sort gives. \<open>compare\<close> returns a number, a
  \<open>NaN\<close> counting as \<open>0\<close>. (With an inconsistent comparator the order is left to the
  engine; the theorems about order below assume valid dates, which make it consistent.)
\<close>

fun insertBy :: "('a \<Rightarrow> 'a \<Rightarrow> int) \<Rightarrow> 'a \<Rightarrow> 'a list \<Rightarrow> 'a list" where
  "insertBy compare x [] = [x]"
| "insertBy compare x (y # ys) =
     (if compare x y \<le> 0 then x # y # ys else y # insertBy compare x ys)"

definition Array_sort :: "('a \<Rightarrow> 'a \<Rightarrow> int) \<Rightarrow> 'a list \<Rightarrow> 'a list" where
  "Array_sort compare xs = foldr (insertBy compare) xs []"

text \<open>
  \<open>(a, b) => new Date(b.savedAt).getTime() - new Date(a.savedAt).getTime()\<close>; the
  difference is \<open>NaN\<close>, hence \<open>0\<close> for the sort, when either date is invalid.
\<close>

definition bySavedAtDesc :: "platform \<Rightarrow> Bookmark \<Rightarrow> Bookmark \<Rightarrow> int" where
  "bySavedAtDesc P a b =
     (case (Date_parse P (savedAt b), Date_parse P (savedAt a)) of
        (Some tb, Some ta) \<Rightarrow> tb - ta
      | _ \<Rightarrow> 0)"

text \<open>The memo \<open>combinedBookmarks\<close>, a function of the seed and the user collection.\<close>

definition combinedBookmarks :: "platform \<Rightarrow> Bookmark list \<Rightarrow> Bookmark list \<Rightarrow> Bookmark list" where
  "combinedBookmarks P seed userBookmarks =
     (let seedIds = set (map id' seed);
          filteredUser = filter (\<lambda>bookmark. id' bookmark \<notin> seedIds) userBookmarks;
          merged = dedupeById (seed @ filteredUser)
      in Array_sort (bySavedAtDesc P) merged)"

text \<open>
  \<open>seedBookmarks\<close> of \<open>data/bookmarks.ts\<close>. (The dash in the fourth note lies outside
  the 8-bit range of \<open>char\<close> and is written as a hyphen between spaces.)
\<close>

definition seedBookmarks :: "Bookmark list" where
  "seedBookmarks =
    [ \<lparr>id' = ''til-vite-aliases'',
       title = ''Speed up your Vite projects with path aliases'',
       url = ''https://vite.dev/guide/features.html#path-aliases'',
       urlType = JStr ''Generic'',
       tags = [''vite'', ''frontend'', ''productivity''],
       note = ''Quick reference for setting up @ alias in Vite config.'',
       savedAt = ''2024-07-02T10:15:00.000Z''\<rparr>,
      \<lparr>id' = ''article-css-clamp'',
       title = ''Responsive typography with clamp()'',
       url = ''https://web.dev/min-max-clamp/'',
       urlType = JStr ''Generic'',
       tags = [''css'', ''design''],
       note = ''Explains how to use clamp() for type scales that adapt to viewport.'',
       savedAt = ''2024-08-15T08:02:00.000Z''\<rparr>,
      \<lparr>id' = ''doc-aria-patterns'',
       title = ''ARIA Authoring Practices Guide'',
       url = ''https://www.w3.org/WAI/ARIA/apg/'',
       urlType = JStr ''Generic'',
       tags = [''accessibility'', ''reference''],
       note = ''Great resource for common widget patterns; check combobox behavior.'',
       savedAt = ''2024-05-28T21:30:00.000Z''\<rparr>,
      \<lparr>id' = ''repo-zustand'',
       title = ''Zustand State Management'',
       url = ''https://github.com/pmndrs/zustand'',
       urlType = JStr ''GitHub'',
       tags = [''state'', ''react''],
       note = ''Simple global store - consider for future state sharing if app grows.'',
       savedAt = ''2024-09-04T14:45:00.000Z''\<rparr>,
      \<lparr>id' = ''blog-dark-mode-css'',
       title = ''Prefers-color-scheme: Dark Mode in CSS'',
       url = ''https://css-tricks.com/dark-mode/'',
       urlType = JStr ''Generic'',
       tags = [''css'', ''ui''],
       note = ''Covers toggles and system preference detection; useful for theme switch.'',
       savedAt = ''2024-06-11T12:10:00.000Z''\<rparr> ]"

section \<open>Filter and search (\<open>getHostname\<close>, \<open>filteredBookmarks\<close>)\<close>

definition getHostname :: "platform \<Rightarrow> string \<Rightarrow> string" where
  "getHostname P u =
     (case URL_new P u of
        Some parsed \<Rightarrow>
          (let h = hostname parsed in if prefix ''www.'' h then drop 4 h else h)
      | None \<Rightarrow> u)"

record Filters =
  search :: string
  tag :: string

definition filteredBookmarks :: "platform \<Rightarrow> Filters \<Rightarrow> Bookmark list \<Rightarrow> Bookmark list" where
  "filteredBookmarks P filters combined =
     (let searchV = toLowerCase P (trim P (search filters));
          tagV = tag filters
      in filter (\<lambda>bookmark.
           (let matchesTag = (tagV = [] \<or> tagV \<in> set (tags bookmark))
            in if searchV = [] then matchesTag
               else (let haystack =
                           toLowerCase P
                             (join '' '' [title bookmark, note bookmark,
                                         join '' '' (tags bookmark),
                                         getHostname P (url bookmark)])
                     in matchesTag \<and> String_includes haystack searchV))) combined)"

section \<open>Draft cache\<close>

record FormFields =
  titleField :: string
  urlField :: string
  tagsField :: string
  noteField :: string

datatype StatusTone = Idle | Success | Error

record Status =
  message :: string
  tone :: StatusTone

definition FormFields_json :: "FormFields \<Rightarrow> json" where
  "FormFields_json f =
     JObj [(''title'', JStr (titleField f)), (''url'', JStr (urlField f)),
           (''tags'', JStr (tagsField f)), (''note'', JStr (noteField f))]"

text \<open>
  The effect that restores the draft when the component mounts: the new form fields
  and the status message it sets, if any. The state updater reads properties of
  \<open>parsed\<close> outside the \<open>try\<close> block, so a stored \<open>null\<close> is a \<open>TypeError\<close>.
\<close>

definition draftRestoreEffect ::
  "platform \<Rightarrow> (string \<rightharpoonup> string) \<Rightarrow> FormFields \<Rightarrow> exn + (FormFields \<times> Status option)" where
  "draftRestoreEffect P localStorage previous =
     (case localStorage DRAFT_KEY of
        None \<Rightarrow> Inr (previous, None)
      | Some raw \<Rightarrow>
          (if raw = [] then Inr (previous, None)
           else (case JSON_parse P raw of
                   None \<Rightarrow> Inr (previous, None)
                 | Some JNull \<Rightarrow> Inl TypeError
                 | Some parsed \<Rightarrow>
                     Inr (\<lparr>titleField = (case getProp parsed ''title'' of
                                            Some (JStr s) \<Rightarrow> s | _ \<Rightarrow> titleField previous),
                           urlField = (case getProp parsed ''url'' of
                                          Some (JStr s) \<Rightarrow> s | _ \<Rightarrow> urlField previous),
                           tagsField = (case getProp parsed ''tags'' of
                                           Some (JStr s) \<Rightarrow> s | _ \<Rightarrow> tagsField previous),
                           noteField = (case getProp parsed ''note'' of
                                           Some (JStr s) \<Rightarrow> s | _ \<Rightarrow> noteField previous)\<rparr>,
                          Some \<lparr>message = ''Draft restored from cache.'', tone = Success\<rparr>))))"

text \<open>
  The button handler \<open>handleRestoreDraft\<close>. It stores the parsed value itself as the
  form state, so the form state is a \<open>json\<close> value here.
\<close>

definition handleRestoreDraft ::
  "platform \<Rightarrow> (string \<rightharpoonup> string) \<Rightarrow> json \<Rightarrow> json \<times> Status" where
  "handleRestoreDraft P localStorage formFields =
     (case localStorage DRAFT_KEY of
        None \<Rightarrow> (formFields, \<lparr>message = ''No draft saved yet.'', tone = Error\<rparr>)
      | Some raw \<Rightarrow>
          (if raw = [] then (formFields, \<lparr>message = ''No draft saved yet.'', tone = Error\<rparr>)
           else (case JSON_parse P raw of
                   None \<Rightarrow>
                     (formFields,
                      \<lparr>message = ''Draft was corrupted; please save again.'', tone = Error\<rparr>)
                 | Some parsed \<Rightarrow>
                     (parsed, \<lparr>message = ''Draft restored.'', tone = Success\<rparr>))))"

section \<open>Import and export (\<open>handleImport\<close>, \<open>handleExport\<close>)\<close>

text \<open>
  \<open>typeof entry.k === 'string' ? entry.k.trim() : \<close>\<open>''\<close>, the expression \<open>handleImport\<close>
  uses for \<open>title\<close>, \<open>url\<close> and \<open>note\<close>.

  \<open>importEntry\<close> is the callback of \<open>parsed.forEach\<close>: the bookmark it pushes, if any.
  The date is computed before the checks, the id only when the entry is pushed.
\<close>

definition trimmedString :: "platform \<Rightarrow> json \<Rightarrow> string \<Rightarrow> string" where
  "trimmedString P entry k =
     (case getProp entry k of Some (JStr s) \<Rightarrow> trim P s | _ \<Rightarrow> [])"

definition importEntry :: "platform \<Rightarrow> nat \<Rightarrow> json \<Rightarrow> Bookmark option \<times> nat" where
  "importEntry P n entry =
     (if \<not> is_object entry then (None, n)
      else
        (let titleV = trimmedString P entry ''title'';
             urlV = trimmedString P entry ''url'';
             noteV = trimmedString P entry ''note'';
             tagsV = stringTags P (getProp entry ''tags'');
             (savedAtV, n1) = savedAtOrNow P n (getProp entry ''savedAt'')
         in if titleV = [] \<or> urlV = [] then (None, n1)
            else if URL_new P urlV = None then (None, n1)
            else
              (let (idV, n2) = idOrFresh P n1 (getProp entry ''id'')
               in (Some \<lparr>id' = idV,
                         title = titleV,
                         url = urlV,
                         urlType = urlTypeValue (detectUrlType P urlV),
                         tags = tagsV,
                         note = noteV,
                         savedAt = savedAtV\<rparr>, n2))))"

text \<open>The \<open>forEach\<close> loop: the array \<open>imported\<close> when it ends.\<close>

fun importEntries :: "platform \<Rightarrow> nat \<Rightarrow> json list \<Rightarrow> Bookmark list" where
  "importEntries P n [] = []"
| "importEntries P n (entry # entries) =
     (case importEntry P n entry of
        (None, n') \<Rightarrow> importEntries P n' entries
      | (Some b, n') \<Rightarrow> b # importEntries P n' entries)"

text \<open>Decimal rendering of an array length in a template string.\<close>

fun decimal :: "nat \<Rightarrow> string" where
  "decimal n =
     (if n < 10 then [char_of (48 + n)]
      else decimal (n div 10) @ [char_of (48 + n mod 10)])"

declare decimal.simps [simp del]

text \<open>
  \<open>handleImport\<close> on the text of the chosen file: the user collection after it and the
  status message it sets.
\<close>

definition handleImport ::
  "platform \<Rightarrow> nat \<Rightarrow> string \<Rightarrow> Bookmark list \<Rightarrow> Bookmark list \<times> Status" where
  "handleImport P n text previous =
     (case JSON_parse P text of
        None \<Rightarrow> (previous, \<lparr>message = ''Import failed. Ensure the JSON is valid.'', tone = Error\<rparr>)
      | Some (JArr parsed) \<Rightarrow>
          (let imported = importEntries P n parsed
           in if length imported = 0
              then (previous,
                    \<lparr>message = ''Import completed, but no valid bookmarks were found.'',
                     tone = Error\<rparr>)
              else (Array_sort (bySavedAtDesc P) (dedupeById (imported @ previous)),
                    \<lparr>message = ''Imported '' @ decimal (length imported) @ '' bookmark(s).'',
                     tone = Success\<rparr>))
      | Some other \<Rightarrow>
          (previous,
           \<lparr>message = ''Import failed: expected an array of bookmarks.'', tone = Error\<rparr>))"

text \<open>A bookmark in memory as the JSON value \<open>JSON.stringify\<close> sees.\<close>

definition Bookmark_json :: "Bookmark \<Rightarrow> json" where
  "Bookmark_json b =
     JObj [(''id'', JStr (id' b)), (''title'', JStr (title b)), (''url'', JStr (url b)),
           (''urlType'', urlType b), (''tags'', JArr (map JStr (tags b))),
           (''note'', JStr (note b)), (''savedAt'', JStr (savedAt b))]"

text \<open>
  \<open>handleExport\<close>: the text offered for download, if any, and the status message.
  \<open>JSON_stringify\<close> is \<open>JSON.stringify(v, null, 2)\<close>.
\<close>

definition handleExport :: "platform \<Rightarrow> Bookmark list \<Rightarrow> string option \<times> Status" where
  "handleExport P userBookmarks =
     (if length userBookmarks = 0
      then (None, \<lparr>message = ''No personal bookmarks to export yet.'', tone = Error\<rparr>)
      else (Some (JSON_stringify P (JArr (map Bookmark_json userBookmarks))),
            \<lparr>message = ''Export ready! Check your downloads.'', tone = Success\<rparr>))"

section \<open>A reference platform\<close>

text \<open>
  A small executable platform on which examples are evaluated. Each built-in is
  implemented on a fragment of its inputs only, where it returns what the browser
  returns; outside the fragment the parsers answer \<open>None\<close>.
\<close>

definition ref_host_char :: "char \<Rightarrow> bool" where
  "ref_host_char c =
     ((CHR ''a'' \<le> c \<and> c \<le> CHR ''z'') \<or> (CHR ''0'' \<le> c \<and> c \<le> CHR ''9'')
      \<or> c = CHR ''-'' \<or> c = CHR ''.'')"

definition ref_path_char :: "char \<Rightarrow> bool" where
  "ref_path_char c =
     ((CHR ''a'' \<le> c \<and> c \<le> CHR ''z'') \<or> (CHR ''A'' \<le> c \<and> c \<le> CHR ''Z'')
      \<or> (CHR ''0'' \<le> c \<and> c \<le> CHR ''9'')
      \<or> c = CHR ''/'' \<or> c = CHR ''-'' \<or> c = CHR ''_'' \<or> c = CHR ''.'')"

definition ref_delim :: "char \<Rightarrow> bool" where
  "ref_delim c = (c = CHR ''/'' \<or> c = CHR ''?'' \<or> c = CHR ''#'')"

text \<open>
  \<open>new URL\<close> on \<open>http(s)://host/path?query#fragment\<close>, the host made of lower-case
  letters, digits, hyphens and dots with a top-level label of letters, the path without
  dot segments and without characters that would be percent-encoded.
\<close>

definition ref_URL_new :: "string \<Rightarrow> URL option" where
  "ref_URL_new s =
     (let rest = (if prefix ''https://'' s then Some (drop 8 s)
                  else if prefix ''http://'' s then Some (drop 7 s) else None)
      in case rest of
           None \<Rightarrow> None
         | Some r \<Rightarrow>
             (let h = takeWhile (\<lambda>c. \<not> ref_delim c) r;
                  p = takeWhile (\<lambda>c. c \<noteq> CHR ''?'' \<and> c \<noteq> CHR ''#'')
                        (dropWhile (\<lambda>c. \<not> ref_delim c) r);
                  tld = rev (takeWhile (\<lambda>c. c \<noteq> CHR ''.'') (rev h))
              in if h \<noteq> [] \<and> list_all ref_host_char h
                    \<and> tld \<noteq> [] \<and> list_all (\<lambda>c. CHR ''a'' \<le> c \<and> c \<le> CHR ''z'') tld
                    \<and> list_all ref_path_char p \<and> \<not> String_includes p ''/.''
                 then Some \<lparr>hostname = h, pathname = (if p = [] then ''/'' else p)\<rparr>
                 else None))"

text \<open>
  \<open>String.prototype.trim\<close> for the white space of the 8-bit range, and
  \<open>String.prototype.toLowerCase\<close> for its letters.
\<close>

definition ref_space :: "char \<Rightarrow> bool" where
  "ref_space c =
     (c \<in> set [CHR 0x09, CHR 0x0A, CHR 0x0B, CHR 0x0C, CHR 0x0D, CHR 0x20, CHR 0xA0])"

definition ref_trim :: "string \<Rightarrow> string" where
  "ref_trim s = rev (dropWhile ref_space (rev (dropWhile ref_space s)))"

definition ref_toLowerCase :: "string \<Rightarrow> string" where
  "ref_toLowerCase s =
     map (\<lambda>c. if (CHR ''A'' \<le> c \<and> c \<le> CHR ''Z'')
                  \<or> (CHR 0xC0 \<le> c \<and> c \<le> CHR 0xDE \<and> c \<noteq> CHR 0xD7)
               then char_of (of_char c + (32::nat)) else c) s"

text \<open>
  \<open>Date.parse\<close> on the format of \<open>toISOString\<close>, \<open>YYYY-MM-DDTHH:mm:ss.sssZ\<close>:
  milliseconds since the epoch.
\<close>

definition ref_digit :: "char \<Rightarrow> bool" where
  "ref_digit c = (CHR ''0'' \<le> c \<and> c \<le> CHR ''9'')"

definition ref_number :: "string \<Rightarrow> int" where
  "ref_number s = foldl (\<lambda>a c. 10 * a + (of_char c - 48)) 0 s"

definition ref_days_from_civil :: "int \<Rightarrow> int \<Rightarrow> int \<Rightarrow> int" where
  "ref_days_from_civil y m d =
     (let y1 = (if m \<le> 2 then y - 1 else y);
          era = y1 div 400;
          yoe = y1 - era * 400;
          doy = (153 * (if m > 2 then m - 3 else m + 9) + 2) div 5 + d - 1;
          doe = yoe * 365 + yoe div 4 - yoe div 100 + doy
      in era * 146097 + doe - 719468)"

definition ref_days_in_month :: "int \<Rightarrow> int \<Rightarrow> int" where
  "ref_days_in_month y m =
     (if m = 2 then (if y mod 4 = 0 \<and> (y mod 100 \<noteq> 0 \<or> y mod 400 = 0) then 29 else 28)
      else if m = 4 \<or> m = 6 \<or> m = 9 \<or> m = 11 then 30 else 31)"

definition ref_Date_parse :: "string \<Rightarrow> int option" where
  "ref_Date_parse s =
     (if list_all2 (\<lambda>t c. if t = CHR ''9'' then ref_digit c else c = t)
           ''9999-99-99T99:99:99.999Z'' s
      then
        (let y = ref_number (take 4 s);
             mo = ref_number (take 2 (drop 5 s));
             d = ref_number (take 2 (drop 8 s));
             h = ref_number (take 2 (drop 11 s));
             mi = ref_number (take 2 (drop 14 s));
             sec = ref_number (take 2 (drop 17 s));
             ms = ref_number (take 3 (drop 20 s))
         in if 1 \<le> mo \<and> mo \<le> 12 \<and> 1 \<le> d \<and> d \<le> ref_days_in_month y mo
               \<and> h \<le> 23 \<and> mi \<le> 59 \<and> sec \<le> 59
            then Some ((((ref_days_from_civil y mo d * 24 + h) * 60 + mi) * 60 + sec) * 1000 + ms)
            else None)
      else None)"

text \<open>
  \<open>JSON.stringify(v, null, 2)\<close>: two spaces of indentation for each level, every
  element and member on a line of its own.
\<close>

definition ref_hex :: "nat \<Rightarrow> char" where
  "ref_hex n = (if n < 10 then char_of (48 + n) else char_of (87 + n))"

definition ref_escape :: "char \<Rightarrow> string" where
  "ref_escape c =
     (if c = CHR 0x22 then [CHR 0x5C, CHR 0x22]
      else if c = CHR 0x5C then [CHR 0x5C, CHR 0x5C]
      else if c = CHR 0x08 then [CHR 0x5C, CHR ''b'']
      else if c = CHR 0x09 then [CHR 0x5C, CHR ''t'']
      else if c = CHR 0x0A then [CHR 0x5C, CHR ''n'']
      else if c = CHR 0x0C then [CHR 0x5C, CHR ''f'']
      else if c = CHR 0x0D then [CHR 0x5C, CHR ''r'']
      else if (of_char c :: nat) < 32
        then [CHR 0x5C, CHR ''u'', CHR ''0'', CHR ''0'',
              ref_hex (of_char c div 16), ref_hex (of_char c mod 16)]
      else [c])"

definition ref_quote :: "string \<Rightarrow> string" where
  "ref_quote s = CHR 0x22 # concat (map ref_escape s) @ [CHR 0x22]"

definition ref_newline :: "nat \<Rightarrow> string" where
  "ref_newline i = CHR 0x0A # replicate i (CHR '' '')"

fun ref_stringify :: "nat \<Rightarrow> json \<Rightarrow> string" where
  "ref_stringify i JNull = ''null''"
| "ref_stringify i (JBool b) = (if b then ''true'' else ''false'')"
| "ref_stringify i (JNum r) = r"
| "ref_stringify i (JStr s) = ref_quote s"
| "ref_stringify i (JArr xs) =
     (if xs = [] then ''[]''
      else ''['' @ ref_newline (i + 2)
           @ join ('','' @ ref_newline (i + 2)) (map (ref_stringify (i + 2)) xs)
           @ ref_newline i @ '']'')"
| "ref_stringify i (JObj kvs) =
     (if kvs = [] then ''{}''
      else ''{'' @ ref_newline (i + 2)
           @ join ('','' @ ref_newline (i + 2))
               (map (\<lambda>kv. ref_quote (fst kv) @ '': '' @ ref_stringify (i + 2) (snd kv)) kvs)
           @ ref_newline i @ ''}'')"

text \<open>
  \<open>JSON.parse\<close> by recursive descent, on texts without \<open>\u\<close> escapes, without
  duplicate keys, and whose numbers are integers of at most 15 digits (which
  \<open>String\<close> renders as they are written). The first argument bounds the number of
  nested calls; the length of the text is enough.
\<close>

definition ref_skip :: "string \<Rightarrow> string" where
  "ref_skip s =
     dropWhile (\<lambda>c. c = CHR 0x20 \<or> c = CHR 0x09 \<or> c = CHR 0x0A \<or> c = CHR 0x0D) s"

definition ref_unescape :: "char \<Rightarrow> char option" where
  "ref_unescape e =
     (if e = CHR 0x22 \<or> e = CHR 0x5C \<or> e = CHR ''/'' then Some e
      else if e = CHR ''b'' then Some (CHR 0x08)
      else if e = CHR ''t'' then Some (CHR 0x09)
      else if e = CHR ''n'' then Some (CHR 0x0A)
      else if e = CHR ''f'' then Some (CHR 0x0C)
      else if e = CHR ''r'' then Some (CHR 0x0D)
      else None)"

fun ref_string_body :: "string \<Rightarrow> (string \<times> string) option" where
  "ref_string_body [] = None"
| "ref_string_body [c] = (if c = CHR 0x22 then Some ([], []) else None)"
| "ref_string_body (c # e # cs) =
     (if c = CHR 0x22 then Some ([], e # cs)
      else if c = CHR 0x5C then
        (case ref_unescape e of
           None \<Rightarrow> None
         | Some x \<Rightarrow>
             (case ref_string_body cs of
                None \<Rightarrow> None
              | Some (str, rest) \<Rightarrow> Some (x # str, rest)))
      else if (of_char c :: nat) < 32 then None
      else (case ref_string_body (e # cs) of
              None \<Rightarrow> None
            | Some (str, rest) \<Rightarrow> Some (c # str, rest)))"

definition ref_number_token :: "string \<Rightarrow> (string \<times> string) option" where
  "ref_number_token s =
     (let sign = (if prefix ''-'' s then ''-'' else []);
          t = drop (length sign) s;
          ds = takeWhile ref_digit t;
          rest = dropWhile ref_digit t
      in if ds = [] \<or> length ds > 15 \<or> (prefix ''0'' ds \<and> (length ds > 1 \<or> sign \<noteq> []))
            \<or> prefix ''.'' rest \<or> prefix ''e'' rest \<or> prefix ''E'' rest
         then None
         else Some (sign @ ds, rest))"

fun ref_value :: "nat \<Rightarrow> string \<Rightarrow> (json \<times> string) option"
  and ref_elements :: "nat \<Rightarrow> string \<Rightarrow> (json list \<times> string) option"
  and ref_members :: "nat \<Rightarrow> string \<Rightarrow> ((string \<times> json) list \<times> string) option"
where
  "ref_value 0 s = None"
| "ref_value (Suc n) s =
     (let t = ref_skip s
      in if prefix ''null'' t then Some (JNull, drop 4 t)
         else if prefix ''true'' t then Some (JBool True, drop 4 t)
         else if prefix ''false'' t then Some (JBool False, drop 5 t)
         else if prefix [CHR 0x22] t then
           (case ref_string_body (drop 1 t) of
              None \<Rightarrow> None
            | Some (x, rest) \<Rightarrow> Some (JStr x, rest))
         else if prefix ''['' t then
           (if prefix '']'' (ref_skip (drop 1 t)) then Some (JArr [], drop 1 (ref_skip (drop 1 t)))
            else (case ref_elements n (drop 1 t) of
                    None \<Rightarrow> None
                  | Some (xs, rest) \<Rightarrow> Some (JArr xs, rest)))
         else if prefix ''{'' t then
           (if prefix ''}'' (ref_skip (drop 1 t)) then Some (JObj [], drop 1 (ref_skip (drop 1 t)))
            else (case ref_members n (drop 1 t) of
                    None \<Rightarrow> None
                  | Some (kvs, rest) \<Rightarrow>
                      (if distinct (map fst kvs) then Some (JObj kvs, rest) else None)))
         else (case ref_number_token t of
                 None \<Rightarrow> None
               | Some (x, rest) \<Rightarrow> Some (JNum x, rest)))"
| "ref_elements 0 s = None"
| "ref_elements (Suc n) s =
     (case ref_value n s of
        None \<Rightarrow> None
      | Some (v, r) \<Rightarrow>
          (let t = ref_skip r
           in if prefix '','' t then
                (case ref_elements n (drop 1 t) of
                   None \<Rightarrow> None
                 | Some (vs, rest) \<Rightarrow> Some (v # vs, rest))
              else if prefix '']'' t then Some ([v], drop 1 t)
              else None))"
| "ref_members 0 s = None"
| "ref_members (Suc n) s =
     (let t = ref_skip s
      in if \<not> prefix [CHR 0x22] t then None
         else (case ref_string_body (drop 1 t) of
                 None \<Rightarrow> None
               | Some (k, r) \<Rightarrow>
                   (let t2 = ref_skip r
                    in if \<not> prefix '':'' t2 then None
                       else (case ref_value n (drop 1 t2) of
                               None \<Rightarrow> None
                             | Some (v, r2) \<Rightarrow>
                                 (let t3 = ref_skip r2
                                  in if prefix '','' t3 then
                                       (case ref_members n (drop 1 t3) of
                                          None \<Rightarrow> None
                                        | Some (kvs, rest) \<Rightarrow> Some ((k, v) # kvs, rest))
                                     else if prefix ''}'' t3 then Some ([(k, v)], drop 1 t3)
                                     else None)))))"

definition ref_JSON_parse :: "string \<Rightarrow> json option" where
  "ref_JSON_parse s =
     (case ref_value (Suc (length s)) s of
        None \<Rightarrow> None
      | Some (v, rest) \<Rightarrow> (if ref_skip rest = [] then Some v else None))"

text \<open>The oracles: distinct identifiers, and a clock that stands still.\<close>

definition ref_randomUUID :: "nat \<Rightarrow> string" where
  "ref_randomUUID n =
     ''00000000-0000-4000-8000-'' @ replicate (12 - length (decimal n)) (CHR ''0'') @ decimal n"

definition ref_platform :: platform where
  "ref_platform =
     \<lparr>JSON_parse = ref_JSON_parse,
      JSON_stringify = ref_stringify 0,
      URL_new = ref_URL_new,
      Date_parse = ref_Date_parse,
      trim = ref_trim,
      toLowerCase = ref_toLowerCase,
      randomUUID = ref_randomUUID,
      Date_now_ISO = (\<lambda>n. ''2026-01-01T00:00:00.000Z'')\<rparr>"

text \<open>
  A user collection for examples: a stale copy of a seed record, and two records that
  share an id, the first of them dated like a seed record.
\<close>

definition example_user :: "Bookmark list" where
  "example_user =
    [ \<lparr>id' = ''repo-zustand'',
       title = ''Stale copy'',
       url = ''https://github.com/pmndrs/zustand'',
       urlType = JStr ''GitHub'',
       tags = [],
       note = [],
       savedAt = ''2025-01-01T00:00:00.000Z''\<rparr>,
      \<lparr>id' = ''u-1'',
       title = ''First'',
       url = ''https://a.com'',
       urlType = JStr ''Generic'',
       tags = [''css''],
       note = [],
       savedAt = ''2024-08-15T08:02:00.000Z''\<rparr>,
      \<lparr>id' = ''u-1'',
       title = ''Second'',
       url = ''https://b.com'',
       urlType = JStr ''Generic'',
       tags = [],
       note = [],
       savedAt = ''2024-10-01T00:00:00.000Z''\<rparr> ]"

text \<open>
  A stored text for examples: an element with a blank title, one without a title, one
  whose url does not parse, one with a numeric title, and a number.
\<close>

definition example_stored :: string where
  \<open>example_stored =
     ''[{"title":"  ","url":" https://a.com/x "},{"url":"https://b.com"},'' @
     ''{"title":"Bad","url":"nope"},'' @
     ''{"title":42,"url":"https://github.com/y","id":"k","savedAt":"2024-07-02T10:15:00.000Z"},7]''\<close>

text \<open>The value \<open>JSON.parse\<close> gives for that text.\<close>

definition example_items :: "json list" where
  "example_items =
     [JObj [(''title'', JStr ''  ''), (''url'', JStr '' https://a.com/x '')],
      JObj [(''url'', JStr ''https://b.com'')],
      JObj [(''title'', JStr ''Bad''), (''url'', JStr ''nope'')],
      JObj [(''title'', JNum ''42''), (''url'', JStr ''https://github.com/y''),
            (''id'', JStr ''k''), (''savedAt'', JStr ''2024-07-02T10:15:00.000Z'')],
      JNum ''7'']"

text \<open>Three more stored texts: without a title, with an empty one, with an object.\<close>

definition example_no_title :: string where
  \<open>example_no_title = ''[{"url":"https://b.com"}]''\<close>

definition example_empty_title :: string where
  \<open>example_empty_title = ''[{"title":"","url":"https://b.com"}]''\<close>

definition example_object_title :: string where
  \<open>example_object_title =
     ''[{"title":"Kept otherwise","url":"https://a.com"},'' @
     ''{"title":{"toString":1},"url":"https://b.com"}]''\<close>

text \<open>
  An import text for examples, and the value \<open>JSON.parse\<close> gives for it: one entry
  that shares its id with records of the example user collection and carries a
  \<open>urlType\<close> that is not the one of its url.
\<close>

definition example_import :: string where
  \<open>example_import =
     ''[{"id":"u-1","title":"New","url":"https://github.com/x","urlType":"Miro Board",'' @
     ''"savedAt":"2025-02-02T00:00:00.000Z"}]''\<close>

definition example_entries :: "json list" where
  "example_entries =
     [JObj [(''id'', JStr ''u-1''), (''title'', JStr ''New''),
            (''url'', JStr ''https://github.com/x''), (''urlType'', JStr ''Miro Board''),
            (''savedAt'', JStr ''2025-02-02T00:00:00.000Z'')]]"

text \<open>
  A form, a stored partial draft, and a bookmark for examples.
\<close>

definition example_baseline :: FormFields where
  "example_baseline = \<lparr>titleField = ''x'', urlField = [], tagsField = [], noteField = []\<rparr>"

definition example_draft :: string where
  \<open>example_draft = ''{"url":"https://a.com"}''\<close>

definition example_css :: Bookmark where
  "example_css =
     \<lparr>id' = ''c'', title = ''css'', url = ''https://a.com'', urlType = JStr ''Generic'',
      tags = [], note = [], savedAt = ''2025-03-03T00:00:00.000Z''\<rparr>"

section \<open>The classifier returns the first matching rule\<close>

text \<open>
  Claim C2. \<open>detectUrlType\<close> is a total function of the string (and of the URL parser):
  when the string does not parse it returns \<open>Generic\<close>; when it parses, the result is the
  name of the rule of least index in the table \<open>rules\<close> that matches, and \<open>Generic\<close> when
  no rule matches. The table lists Google Doc, Google Sheet, Miro Board, GitHub,
  ServiceNow, Red Hat Source in this order. With the host and path the URL parser finds
  in them, the three example URLs classify as Google Doc, Google Sheet and Miro Board,
  and the unparseable \<open>not a url\<close> as Generic.
\<close>

theorem detectUrlType_first_match:
  "(URL_new P s = None \<longrightarrow> detectUrlType P s = Generic)
   \<and> (\<forall>u. URL_new P s = Some u \<longrightarrow>
        ((\<exists>i<length rules. matches (rules ! i) u \<and> (\<forall>j<i. \<not> matches (rules ! j) u)
              \<and> detectUrlType P s = name (rules ! i))
         \<or> ((\<forall>r\<in>set rules. \<not> matches r u) \<and> detectUrlType P s = Generic)))
   \<and> map name rules = [GoogleDoc, GoogleSheet, MiroBoard, GitHub, ServiceNow, RedHatSource]
   \<and> (URL_new P ''https://docs.google.com/document/d/abc''
          = Some \<lparr>hostname = ''docs.google.com'', pathname = ''/document/d/abc''\<rparr>
        \<longrightarrow> UrlType_string (detectUrlType P ''https://docs.google.com/document/d/abc'')
              = ''Google Doc'')
   \<and> (URL_new P ''https://docs.google.com/spreadsheets/d/abc''
          = Some \<lparr>hostname = ''docs.google.com'', pathname = ''/spreadsheets/d/abc''\<rparr>
        \<longrightarrow> UrlType_string (detectUrlType P ''https://docs.google.com/spreadsheets/d/abc'')
              = ''Google Sheet'')
   \<and> (URL_new P ''https://sub.miro.com/app/board/xyz''
          = Some \<lparr>hostname = ''sub.miro.com'', pathname = ''/app/board/xyz''\<rparr>
        \<longrightarrow> UrlType_string (detectUrlType P ''https://sub.miro.com/app/board/xyz'')
              = ''Miro Board'')
   \<and> (URL_new P ''not a url'' = None
        \<longrightarrow> UrlType_string (detectUrlType P ''not a url'') = ''Generic'')"
proof (intro conjI allI impI)
  assume "URL_new P s = None"
  then show "detectUrlType P s = Generic" by (simp add: detectUrlType_def)
next
  fix u assume u: "URL_new P s = Some u"
  show "(\<exists>i<length rules. matches (rules ! i) u \<and> (\<forall>j<i. \<not> matches (rules ! j) u)
              \<and> detectUrlType P s = name (rules ! i))
         \<or> ((\<forall>r\<in>set rules. \<not> matches r u) \<and> detectUrlType P s = Generic)"
  proof (cases "find (\<lambda>rule. matches rule u) rules")
    case None
    then have "\<forall>r\<in>set rules. \<not> matches r u" by (simp add: find_None_iff)
    moreover from None u have "detectUrlType P s = Generic" by (simp add: detectUrlType_def)
    ultimately show ?thesis by blast
  next
    case (Some r)
    then obtain i where "i < length rules" "matches (rules ! i) u" "r = rules ! i"
      "\<forall>j<i. \<not> matches (rules ! j) u"
      unfolding find_Some_iff by blast
    moreover from Some u have "detectUrlType P s = name r" by (simp add: detectUrlType_def)
    ultimately show ?thesis by blast
  qed
next
  show "map name rules = [GoogleDoc, GoogleSheet, MiroBoard, GitHub, ServiceNow, RedHatSource]"
    by (simp add: rules_def)
qed (simp_all add: detectUrlType_def rules_def startsWith_def endsWith_def suffix_to_prefix)

text \<open>The reference URL parser finds those hosts and paths.\<close>

theorem detectUrlType_first_match_witness:
  "URL_new ref_platform ''https://docs.google.com/document/d/abc''
     = Some \<lparr>hostname = ''docs.google.com'', pathname = ''/document/d/abc''\<rparr>
   \<and> URL_new ref_platform ''https://docs.google.com/spreadsheets/d/abc''
     = Some \<lparr>hostname = ''docs.google.com'', pathname = ''/spreadsheets/d/abc''\<rparr>
   \<and> URL_new ref_platform ''https://sub.miro.com/app/board/xyz''
     = Some \<lparr>hostname = ''sub.miro.com'', pathname = ''/app/board/xyz''\<rparr>
   \<and> URL_new ref_platform ''not a url'' = None
   \<and> UrlType_string (detectUrlType ref_platform ''https://docs.google.com/document/d/abc'')
       = ''Google Doc''
   \<and> UrlType_string (detectUrlType ref_platform ''https://docs.google.com/spreadsheets/d/abc'')
       = ''Google Sheet''
   \<and> UrlType_string (detectUrlType ref_platform ''https://sub.miro.com/app/board/xyz'')
       = ''Miro Board''
   \<and> UrlType_string (detectUrlType ref_platform ''not a url'') = ''Generic''"
proof -
  have h1: "URL_new ref_platform ''https://docs.google.com/document/d/abc''
     = Some \<lparr>hostname = ''docs.google.com'', pathname = ''/document/d/abc''\<rparr>"
    by (simp add: ref_platform_def ref_URL_new_def ref_delim_def ref_host_char_def ref_path_char_def)
  have h2: "URL_new ref_platform ''https://docs.google.com/spreadsheets/d/abc''
     = Some \<lparr>hostname = ''docs.google.com'', pathname = ''/spreadsheets/d/abc''\<rparr>"
    by (simp add: ref_platform_def ref_URL_new_def ref_delim_def ref_host_char_def ref_path_char_def)
  have h3: "URL_new ref_platform ''https://sub.miro.com/app/board/xyz''
     = Some \<lparr>hostname = ''sub.miro.com'', pathname = ''/app/board/xyz''\<rparr>"
    by (simp add: ref_platform_def ref_URL_new_def ref_delim_def ref_host_char_def ref_path_char_def)
  have h4: "URL_new ref_platform ''not a url'' = None"
    by (simp add: ref_platform_def ref_URL_new_def)
  from detectUrlType_first_match [of ref_platform "''not a url''"] h1 h2 h3 h4
  show ?thesis by simp
qed

section \<open>Deduplication keeps the first record of every id\<close>

lemma dedupeLoop_filter_id:
  "filter (\<lambda>b. id' b = i) (dedupeLoop seen xs) =
     (if i \<in> seen then []
      else (case find (\<lambda>x. id' x = i) xs of None \<Rightarrow> [] | Some b \<Rightarrow> [b]))"
  by (induction xs arbitrary: seen) auto

lemma dedupeLoop_subseq: "subseq (dedupeLoop seen xs) xs"
  by (induction xs arbitrary: seen) auto

lemma dedupeLoop_set: "set (dedupeLoop seen xs) \<subseteq> set xs"
  by (induction xs arbitrary: seen) auto

lemma dedupeLoop_ids: "id' ` set (dedupeLoop seen xs) = id' ` set xs - seen"
  by (induction xs arbitrary: seen) auto

lemma dedupeLoop_distinct: "distinct (map id' (dedupeLoop seen xs))"
proof (induction xs arbitrary: seen)
  case Nil
  show ?case by simp
next
  case (Cons x xs)
  have "id' x \<notin> id' ` set (dedupeLoop (insert (id' x) seen) xs)"
    by (simp add: dedupeLoop_ids)
  with Cons show ?case by simp
qed

lemma dedupeLoop_first:
  assumes "b \<in> set (dedupeLoop seen xs)"
  shows "find (\<lambda>x. id' x = id' b) xs = Some b"
proof -
  from assms have "b \<in> set (filter (\<lambda>x. id' x = id' b) (dedupeLoop seen xs))" by simp
  then show ?thesis
    unfolding dedupeLoop_filter_id by (auto split: if_splits option.splits)
qed

section \<open>The sort is a stable sort by descending date\<close>

lemma mset_insertBy: "mset (insertBy c x ys) = add_mset x (mset ys)"
  by (induction ys) auto

lemma mset_Array_sort: "mset (Array_sort c xs) = mset xs"
  unfolding Array_sort_def by (induction xs) (auto simp: mset_insertBy)

lemma insertBy_insort_key:
  assumes "\<forall>y\<in>set ys. (c x y \<le> 0) = (f x \<le> f y)"
  shows "insertBy c x ys = insort_key f x ys"
  using assms by (induction ys) auto

lemma Array_sort_sort_key:
  assumes "\<forall>x\<in>set xs. \<forall>y\<in>set xs. (c x y \<le> 0) = (f x \<le> f y)"
  shows "Array_sort c xs = sort_key f xs"
  using assms
proof (induction xs)
  case Nil
  show ?case by (simp add: Array_sort_def)
next
  case (Cons x xs)
  then have ih: "Array_sort c xs = sort_key f xs" by simp
  have "\<forall>y\<in>set (sort_key f xs). (c x y \<le> 0) = (f x \<le> f y)"
    using Cons.prems by simp
  then have "insertBy c x (sort_key f xs) = insort_key f x (sort_key f xs)"
    by (rule insertBy_insort_key)
  with ih show ?case by (simp add: Array_sort_def)
qed

lemma bySavedAtDesc_valid:
  assumes "Date_parse P (savedAt a) \<noteq> None" "Date_parse P (savedAt b) \<noteq> None"
  shows "(bySavedAtDesc P a b \<le> 0)
          = (- the (Date_parse P (savedAt a)) \<le> - the (Date_parse P (savedAt b)))"
  using assms by (auto simp: bySavedAtDesc_def)

lemma Array_sort_bySavedAtDesc:
  assumes "\<forall>b\<in>set xs. Date_parse P (savedAt b) \<noteq> None"
  shows "Array_sort (bySavedAtDesc P) xs = sort_key (\<lambda>b. - the (Date_parse P (savedAt b))) xs"
  by (rule Array_sort_sort_key) (use assms in \<open>simp add: bySavedAtDesc_valid\<close>)

lemma Array_sort_sorted:
  assumes "\<forall>b\<in>set xs. Date_parse P (savedAt b) \<noteq> None"
  shows "sorted_wrt (\<lambda>a b. the (Date_parse P (savedAt b)) \<le> the (Date_parse P (savedAt a)))
           (Array_sort (bySavedAtDesc P) xs)"
proof -
  have "sorted (map (\<lambda>b. - the (Date_parse P (savedAt b)))
          (sort_key (\<lambda>b. - the (Date_parse P (savedAt b))) xs))"
    by (rule sorted_sort_key)
  then show ?thesis
    by (simp add: Array_sort_bySavedAtDesc [OF assms] sorted_map)
qed

lemma Array_sort_stable:
  assumes "\<forall>b\<in>set xs. Date_parse P (savedAt b) \<noteq> None"
  shows "filter (\<lambda>b. Date_parse P (savedAt b) = Some k) (Array_sort (bySavedAtDesc P) xs)
         = filter (\<lambda>b. Date_parse P (savedAt b) = Some k) xs"
proof -
  let ?f = "\<lambda>b. - the (Date_parse P (savedAt b))"
  have eq: "\<And>ys. \<forall>b\<in>set ys. Date_parse P (savedAt b) \<noteq> None \<Longrightarrow>
      filter (\<lambda>b. Date_parse P (savedAt b) = Some k) ys = filter (\<lambda>b. ?f b = - k) ys"
    by (rule filter_cong) auto
  have "filter (\<lambda>b. Date_parse P (savedAt b) = Some k) (sort_key ?f xs)
        = filter (\<lambda>b. ?f b = - k) (sort_key ?f xs)"
    by (rule eq) (use assms in simp)
  also have "\<dots> = filter (\<lambda>b. ?f b = - k) xs" by (rule sort_key_stable)
  also have "\<dots> = filter (\<lambda>b. Date_parse P (savedAt b) = Some k) xs"
    by (rule eq [symmetric]) (rule assms)
  finally show ?thesis by (simp add: Array_sort_bySavedAtDesc [OF assms])
qed

lemma filter_single_mset:
  assumes "mset R = mset D" "filter p D = [b]"
  shows "filter p R = [b]"
proof -
  have "mset (filter p R) = mset (filter p D)" by (simp add: assms(1))
  also have "\<dots> = {#b#}" by (simp add: assms(2))
  finally show ?thesis by (simp only: mset_single_iff)
qed

lemma find_append_case:
  "find p (xs @ ys) = (case find p xs of None \<Rightarrow> find p ys | Some x \<Rightarrow> Some x)"
  by (induction xs) auto

lemma find_filter_implied:
  assumes "\<And>x. p x \<Longrightarrow> q x"
  shows "find p (filter q xs) = find p xs"
  using assms by (induction xs) auto

lemma find_member_Some:
  assumes "x \<in> set xs" "p x"
  shows "\<exists>y. find p xs = Some y"
  using assms by (cases "find p xs") (auto simp: find_None_iff)

section \<open>Reconciliation of the seed and the user collection\<close>

text \<open>
  Claim C1. Let \<open>M\<close> be the seed collection followed by the user records whose id is
  no seed id, and \<open>D\<close> the deduplication of \<open>M\<close>. \<open>D\<close> keeps the order of \<open>M\<close>, has
  pairwise distinct ids, covers every id of \<open>M\<close>, and each of its records is the first
  record of \<open>M\<close> with that id. The combined view \<open>R\<close> is a rearrangement of \<open>D\<close>. Hence for
  every seed id \<open>R\<close> holds exactly one record, the first seed record of that id (a user
  record of the same id is dropped), and for every other user id exactly one record, the
  first user record of that id. When every date parses, \<open>R\<close> is ordered by descending
  date, and the records of any one date stand in \<open>R\<close> in the order they have in \<open>D\<close>.
\<close>

theorem combinedBookmarks_reconciles:
  "let M = seed @ filter (\<lambda>b. id' b \<notin> id' ` set seed) user;
       D = dedupeById M;
       R = combinedBookmarks P seed user;
       t = (\<lambda>b. Date_parse P (savedAt b))
   in subseq D M \<and> distinct (map id' D) \<and> id' ` set D = id' ` set M
      \<and> (\<forall>b\<in>set D. find (\<lambda>x. id' x = id' b) M = Some b)
      \<and> mset R = mset D
      \<and> (\<forall>s\<in>set seed. \<exists>b. find (\<lambda>x. id' x = id' s) seed = Some b
                              \<and> filter (\<lambda>x. id' x = id' s) R = [b])
      \<and> (\<forall>u\<in>set user. id' u \<notin> id' ` set seed \<longrightarrow>
             (\<exists>b. find (\<lambda>x. id' x = id' u) user = Some b
                  \<and> filter (\<lambda>x. id' x = id' u) R = [b]))
      \<and> ((\<forall>b\<in>set seed \<union> set user. t b \<noteq> None) \<longrightarrow>
             sorted_wrt (\<lambda>a b. the (t b) \<le> the (t a)) R
             \<and> (\<forall>k. filter (\<lambda>b. t b = Some k) R = filter (\<lambda>b. t b = Some k) D))"
proof -
  define M where "M = seed @ filter (\<lambda>b. id' b \<notin> id' ` set seed) user"
  define D where "D = dedupeById M"
  define R where "R = combinedBookmarks P seed user"
  have R: "R = Array_sort (bySavedAtDesc P) D"
    by (simp add: R_def D_def M_def combinedBookmarks_def)
  have a1: "subseq D M" by (simp add: D_def dedupeById_def dedupeLoop_subseq)
  have a2: "distinct (map id' D)" by (simp add: D_def dedupeById_def dedupeLoop_distinct)
  have a3: "id' ` set D = id' ` set M" by (simp add: D_def dedupeById_def dedupeLoop_ids)
  have a4: "\<forall>b\<in>set D. find (\<lambda>x. id' x = id' b) M = Some b"
    by (auto simp: D_def dedupeById_def dest: dedupeLoop_first)
  have a5: "mset R = mset D" by (simp add: R mset_Array_sort)
  have first: "filter (\<lambda>x. id' x = i) R = [b]" if "find (\<lambda>x. id' x = i) M = Some b" for i b
  proof (rule filter_single_mset [OF a5])
    show "filter (\<lambda>x. id' x = i) D = [b]"
      using that by (simp add: D_def dedupeById_def dedupeLoop_filter_id)
  qed
  have a6: "\<forall>s\<in>set seed. \<exists>b. find (\<lambda>x. id' x = id' s) seed = Some b
                              \<and> filter (\<lambda>x. id' x = id' s) R = [b]"
  proof
    fix s assume "s \<in> set seed"
    then obtain b where b: "find (\<lambda>x. id' x = id' s) seed = Some b"
      using find_member_Some [of s seed "\<lambda>x. id' x = id' s"] by auto
    then have "find (\<lambda>x. id' x = id' s) M = Some b"
      by (simp add: M_def find_append_case)
    with b show "\<exists>b. find (\<lambda>x. id' x = id' s) seed = Some b
                    \<and> filter (\<lambda>x. id' x = id' s) R = [b]"
      using first by blast
  qed
  have a7: "\<forall>u\<in>set user. id' u \<notin> id' ` set seed \<longrightarrow>
             (\<exists>b. find (\<lambda>x. id' x = id' u) user = Some b
                  \<and> filter (\<lambda>x. id' x = id' u) R = [b])"
  proof (intro ballI impI)
    fix u assume u: "u \<in> set user" "id' u \<notin> id' ` set seed"
    then obtain b where b: "find (\<lambda>x. id' x = id' u) user = Some b"
      using find_member_Some [of u user "\<lambda>x. id' x = id' u"] by auto
    have none: "find (\<lambda>x. id' x = id' u) seed = None"
      using u(2) by (auto simp: find_None_iff image_iff)
    have "find (\<lambda>x. id' x = id' u) (filter (\<lambda>b. id' b \<notin> id' ` set seed) user)
          = find (\<lambda>x. id' x = id' u) user"
      by (rule find_filter_implied) (use u(2) in simp)
    with b none have "find (\<lambda>x. id' x = id' u) M = Some b"
      by (simp add: M_def find_append_case)
    with b show "\<exists>b. find (\<lambda>x. id' x = id' u) user = Some b
                    \<and> filter (\<lambda>x. id' x = id' u) R = [b]"
      using first by blast
  qed
  have a8: "sorted_wrt (\<lambda>a b. the (Date_parse P (savedAt b)) \<le> the (Date_parse P (savedAt a))) R
            \<and> (\<forall>k. filter (\<lambda>b. Date_parse P (savedAt b) = Some k) R
                    = filter (\<lambda>b. Date_parse P (savedAt b) = Some k) D)"
    if valid: "\<forall>b\<in>set seed \<union> set user. Date_parse P (savedAt b) \<noteq> None"
  proof -
    have "set D \<subseteq> set M" by (simp add: D_def dedupeById_def dedupeLoop_set)
    also have "\<dots> \<subseteq> set seed \<union> set user" by (auto simp: M_def)
    finally have "\<forall>b\<in>set D. Date_parse P (savedAt b) \<noteq> None" using valid by blast
    then show ?thesis
      unfolding R by (simp add: Array_sort_sorted Array_sort_stable)
  qed
  from a1 a2 a3 a4 a5 a6 a7 a8 show ?thesis
    unfolding Let_def M_def [symmetric] D_def [symmetric] R_def [symmetric] by blast
qed

text \<open>The dates of the seed and of the example records, on the reference platform.\<close>

lemma ref_dates:
  "ref_Date_parse ''2024-07-02T10:15:00.000Z'' = Some 1719915300000"
  "ref_Date_parse ''2024-08-15T08:02:00.000Z'' = Some 1723708920000"
  "ref_Date_parse ''2024-05-28T21:30:00.000Z'' = Some 1716931800000"
  "ref_Date_parse ''2024-09-04T14:45:00.000Z'' = Some 1725461100000"
  "ref_Date_parse ''2024-06-11T12:10:00.000Z'' = Some 1718107800000"
  "ref_Date_parse ''2025-01-01T00:00:00.000Z'' = Some 1735689600000"
  "ref_Date_parse ''2024-10-01T00:00:00.000Z'' = Some 1727740800000"
  by code_simp+

text \<open>The seed collection combined with the example user collection.\<close>

theorem combinedBookmarks_reconciles_witness:
  "list_all (\<lambda>b. Date_parse ref_platform (savedAt b) \<noteq> None) (seedBookmarks @ example_user)
   \<and> sorted_wrt (\<lambda>a b. the (Date_parse ref_platform (savedAt b))
                        \<le> the (Date_parse ref_platform (savedAt a)))
        (combinedBookmarks ref_platform seedBookmarks example_user)
   \<and> filter (\<lambda>x. id' x = ''repo-zustand'')
        (combinedBookmarks ref_platform seedBookmarks example_user) = [seedBookmarks ! 3]
   \<and> filter (\<lambda>x. id' x = ''u-1'')
        (combinedBookmarks ref_platform seedBookmarks example_user) = [example_user ! 1]"
proof -
  have valid: "\<forall>b\<in>set seedBookmarks \<union> set example_user.
                 Date_parse ref_platform (savedAt b) \<noteq> None"
    by (simp add: seedBookmarks_def example_user_def ref_platform_def ref_dates)
  have s3: "seedBookmarks ! 3 \<in> set seedBookmarks" "id' (seedBookmarks ! 3) = ''repo-zustand''"
    "find (\<lambda>x. id' x = ''repo-zustand'') seedBookmarks = Some (seedBookmarks ! 3)"
    by (simp_all add: seedBookmarks_def)
  have u1: "example_user ! 1 \<in> set example_user" "id' (example_user ! 1) = ''u-1''"
    "find (\<lambda>x. id' x = ''u-1'') example_user = Some (example_user ! 1)"
    "''u-1'' \<notin> id' ` set seedBookmarks"
    by (simp_all add: seedBookmarks_def example_user_def)
  from combinedBookmarks_reconciles [of seedBookmarks example_user ref_platform] valid
  have sorted: "sorted_wrt (\<lambda>a b. the (Date_parse ref_platform (savedAt b))
                        \<le> the (Date_parse ref_platform (savedAt a)))
        (combinedBookmarks ref_platform seedBookmarks example_user)"
    and seed: "\<forall>s\<in>set seedBookmarks. \<exists>b. find (\<lambda>x. id' x = id' s) seedBookmarks = Some b
         \<and> filter (\<lambda>x. id' x = id' s)
              (combinedBookmarks ref_platform seedBookmarks example_user) = [b]"
    and user: "\<forall>u\<in>set example_user. id' u \<notin> id' ` set seedBookmarks \<longrightarrow>
             (\<exists>b. find (\<lambda>x. id' x = id' u) example_user = Some b
                  \<and> filter (\<lambda>x. id' x = id' u)
                       (combinedBookmarks ref_platform seedBookmarks example_user) = [b])"
    unfolding Let_def by blast+
  from seed s3 have c1: "filter (\<lambda>x. id' x = ''repo-zustand'')
        (combinedBookmarks ref_platform seedBookmarks example_user) = [seedBookmarks ! 3]"
    by (metis option.inject)
  from user u1 have c2: "filter (\<lambda>x. id' x = ''u-1'')
        (combinedBookmarks ref_platform seedBookmarks example_user) = [example_user ! 1]"
    by (metis option.inject)
  from valid have "list_all (\<lambda>b. Date_parse ref_platform (savedAt b) \<noteq> None)
                     (seedBookmarks @ example_user)"
    by (simp add: list_all_iff ball_Un)
  with sorted c1 c2 show ?thesis by blast
qed

section \<open>Loading the stored collection\<close>

lemma normalizeStored_cases:
  "normalizeStored P n e =
     (case trimmedText P e ''title'' of
        Inl x \<Rightarrow> Inl x
      | Inr t \<Rightarrow>
          (case trimmedText P e ''url'' of
             Inl x \<Rightarrow> Inl x
           | Inr u \<Rightarrow>
               Inr (\<lparr>id' = fst (idOrFresh P (snd (savedAtOrNow P n (getProp e ''savedAt'')))
                               (getProp e ''id'')),
                     title = (if t = [] then ''Untitled'' else t),
                     url = u,
                     urlType = (case getProp e ''urlType'' of
                                  None \<Rightarrow> urlTypeValue (detectUrlType P u)
                                | Some JNull \<Rightarrow> urlTypeValue (detectUrlType P u)
                                | Some v \<Rightarrow> v),
                     tags = stringTags P (getProp e ''tags''),
                     note = (case getProp e ''note'' of Some (JStr s) \<Rightarrow> s | _ \<Rightarrow> []),
                     savedAt = fst (savedAtOrNow P n (getProp e ''savedAt''))\<rparr>,
                    snd (idOrFresh P (snd (savedAtOrNow P n (getProp e ''savedAt'')))
                           (getProp e ''id'')))))"
  by (simp add: normalizeStored_def Let_def case_prod_beta)

lemma normalizeStored_Inr:
  assumes "normalizeStored P n e = Inr (b, k)"
  shows "trimmedText P e ''url'' = Inr (url b)
         \<and> (\<exists>t. trimmedText P e ''title'' = Inr t
                \<and> title b = (if t = [] then ''Untitled'' else t))"
proof -
  from assms obtain t u where t: "trimmedText P e ''title'' = Inr t"
    and u: "trimmedText P e ''url'' = Inr u"
    unfolding normalizeStored_cases
    by (cases "trimmedText P e ''title''"; cases "trimmedText P e ''url''") simp_all
  from assms have "url b = u" "title b = (if t = [] then ''Untitled'' else t)"
    unfolding normalizeStored_cases t u by auto
  with t u show ?thesis by simp
qed

lemma normalizeStored_isl:
  "isl (normalizeStored P n e)
     = (isl (trimmedText P e ''title'') \<or> isl (trimmedText P e ''url''))"
  unfolding normalizeStored_cases
  by (cases "trimmedText P e ''title''"; cases "trimmedText P e ''url''") simp_all

lemma mapTick_isl:
  assumes "\<And>n x. isl (f n x) = bad x"
  shows "isl (mapTick f n xs) = (\<exists>x\<in>set xs. bad x)"
proof (induction xs arbitrary: n)
  case Nil
  show ?case by simp
next
  case (Cons x xs)
  show ?case
  proof (cases "f n x")
    case (Inl e)
    with assms [of n x] show ?thesis by simp
  next
    case (Inr r)
    obtain y k where r: "r = (y, k)" by (cases r)
    from Inr assms [of n x] have nb: "\<not> bad x" by simp
    have ih: "isl (mapTick f k xs) = (\<exists>x\<in>set xs. bad x)" by (rule Cons)
    have "isl (mapTick f n (x # xs)) = isl (mapTick f k xs)"
      using Inr r by (cases "mapTick f k xs") simp_all
    with ih nb show ?thesis by simp
  qed
qed

lemma mapTick_filter_map:
  assumes "\<And>n x y k. f n x = Inr (y, k) \<Longrightarrow> u y = gu x \<and> h y = g x"
    and "mapTick f n xs = Inr ys"
  shows "map h (filter (\<lambda>b. q (u b)) ys) = map g (filter (\<lambda>x. q (gu x)) xs)"
  using assms(2)
proof (induction xs arbitrary: n ys)
  case Nil
  then show ?case by simp
next
  case (Cons x xs)
  from Cons.prems obtain y k zs where
    y: "f n x = Inr (y, k)" and zs: "mapTick f k xs = Inr zs" and ys: "ys = y # zs"
    by (auto split: sum.splits)
  from assms(1) [OF y] Cons.IH [OF zs] show ?case by (simp add: ys)
qed

lemma has_prop_is_object: "has_prop k e \<Longrightarrow> is_object e"
  by (cases e) (simp_all add: has_prop_def getProp_def is_object_def)

lemma shape_filter:
  "filter (\<lambda>item. is_object item \<and> has_prop ''title'' item \<and> has_prop ''url'' item) items
     = filter (\<lambda>e. has_prop ''title'' e \<and> has_prop ''url'' e) items"
  by (rule filter_cong) (auto dest: has_prop_is_object)

lemma loadUserBookmarks_throws:
  assumes "ls STORAGE_KEY = Some raw" "JSON_parse P raw = Some (JArr items)"
    and "\<exists>e\<in>set items. has_prop ''title'' e \<and> has_prop ''url'' e
           \<and> (isl (trimmedText P e ''title'') \<or> isl (trimmedText P e ''url''))"
  shows "loadUserBookmarks P n ls = []"
proof -
  have "isl (mapTick (normalizeStored P) n
               (filter (\<lambda>e. has_prop ''title'' e \<and> has_prop ''url'' e) items))"
    using assms(3) by (subst mapTick_isl [OF normalizeStored_isl]) auto
  then show ?thesis
    using assms(1,2) by (auto simp: loadUserBookmarks_def shape_filter split: sum.splits)
qed

lemma loadUserBookmarks_array:
  assumes "ls STORAGE_KEY = Some raw" "raw \<noteq> []" "JSON_parse P raw = Some (JArr items)"
    and "\<forall>e\<in>set items. has_prop ''title'' e \<and> has_prop ''url'' e
           \<longrightarrow> \<not> isl (trimmedText P e ''title'') \<and> \<not> isl (trimmedText P e ''url'')"
    and "\<And>n e b k. normalizeStored P n e = Inr (b, k) \<Longrightarrow> h b = g e"
  shows "map h (loadUserBookmarks P n ls) =
           map g (filter (\<lambda>e. has_prop ''title'' e \<and> has_prop ''url'' e
                     \<and> URL_new P (projr (trimmedText P e ''url'')) \<noteq> None) items)"
proof -
  let ?xs = "filter (\<lambda>e. has_prop ''title'' e \<and> has_prop ''url'' e) items"
  have "\<not> isl (mapTick (normalizeStored P) n ?xs)"
    using assms(4) by (subst mapTick_isl [OF normalizeStored_isl]) auto
  then obtain ys where ys: "mapTick (normalizeStored P) n ?xs = Inr ys"
    by (cases "mapTick (normalizeStored P) n ?xs") auto
  have "map h (loadUserBookmarks P n ls) = map h (filter (\<lambda>b. URL_new P (url b) \<noteq> None) ys)"
    using assms(1-3) ys by (simp add: loadUserBookmarks_def shape_filter)
  also have "\<dots> = map g (filter (\<lambda>e. URL_new P (projr (trimmedText P e ''url'')) \<noteq> None) ?xs)"
  proof (rule mapTick_filter_map [where q = "\<lambda>s. URL_new P s \<noteq> None", OF _ ys])
    fix k e b k'
    assume "normalizeStored P k e = Inr (b, k')"
    then show "url b = projr (trimmedText P e ''url'') \<and> h b = g e"
      using normalizeStored_Inr [of P k e b k'] assms(5) [of k e b k'] by simp
  qed
  also have "\<dots> = map g (filter (\<lambda>e. has_prop ''title'' e \<and> has_prop ''url'' e
                     \<and> URL_new P (projr (trimmedText P e ''url'')) \<noteq> None) items)"
    by (simp add: conj_commute conj_left_commute)
  finally show ?thesis .
qed

lemma loadUserBookmarks_cases:
  "loadUserBookmarks P n ls = []
   \<or> (\<exists>xs ys. mapTick (normalizeStored P) n xs = Inr ys
          \<and> loadUserBookmarks P n ls = filter (\<lambda>item. URL_new P (url item) \<noteq> None) ys)"
  by (auto simp: loadUserBookmarks_def split: option.splits json.splits sum.splits)

lemma mapTick_all:
  assumes "\<And>n x y k. f n x = Inr (y, k) \<Longrightarrow> Q y"
    and "mapTick f k xs = Inr ys"
  shows "\<forall>y\<in>set ys. Q y"
  using assms(2)
proof (induction xs arbitrary: k ys)
  case Nil
  then show ?case by simp
next
  case (Cons x xs)
  from Cons.prems obtain y k' zs where
    y: "f k x = Inr (y, k')" and zs: "mapTick f k' xs = Inr zs" and ys: "ys = y # zs"
    by (auto split: sum.splits)
  from assms(1) [OF y] Cons.IH [OF zs] show ?case by (simp add: ys)
qed

lemma loadUserBookmarks_members:
  assumes "b \<in> set (loadUserBookmarks P n ls)"
  shows "URL_new P (url b) \<noteq> None \<and> title b \<noteq> []"
proof -
  from loadUserBookmarks_cases [of P n ls] assms
  obtain xs ys where ys: "mapTick (normalizeStored P) n xs = Inr ys"
    and l: "loadUserBookmarks P n ls = filter (\<lambda>item. URL_new P (url item) \<noteq> None) ys"
    by auto
  have "\<forall>y\<in>set ys. title y \<noteq> []"
  proof (rule mapTick_all [OF _ ys])
    fix k x y k' assume "normalizeStored P k x = Inr (y, k')"
    from normalizeStored_Inr [OF this] show "title y \<noteq> []" by (auto split: if_splits)
  qed
  moreover from assms l have "b \<in> set ys" "URL_new P (url b) \<noteq> None" by simp_all
  ultimately show ?thesis by blast
qed

text \<open>
  Claim C3. \<open>loadUserBookmarks\<close> is a total function: it has no error result. It
  returns the empty collection when the key is missing, when the stored text is empty,
  when the text is not valid JSON and when it parses to anything but an array. For a
  stored array, when \<open>String\<close> throws on the title or url of an element that has both,
  the result is empty; otherwise the result has one record for each element that has a
  \<open>title\<close> and a \<open>url\<close> property and whose trimmed, stringified \<open>url\<close> parses as a URL,
  in the order of the array, with that string as its \<open>url\<close>, and all other elements
  are dropped. In every case each record of the result has a \<open>url\<close> that parses.
\<close>

theorem loadUserBookmarks_tolerant:
  "(ls STORAGE_KEY = None \<longrightarrow> loadUserBookmarks P n ls = [])
   \<and> (ls STORAGE_KEY = Some [] \<longrightarrow> loadUserBookmarks P n ls = [])
   \<and> (\<forall>raw. ls STORAGE_KEY = Some raw \<and> JSON_parse P raw = None
          \<longrightarrow> loadUserBookmarks P n ls = [])
   \<and> (\<forall>raw v. ls STORAGE_KEY = Some raw \<and> JSON_parse P raw = Some v \<and> (\<forall>items. v \<noteq> JArr items)
          \<longrightarrow> loadUserBookmarks P n ls = [])
   \<and> (\<forall>raw items. ls STORAGE_KEY = Some raw \<and> JSON_parse P raw = Some (JArr items)
          \<and> (\<exists>e\<in>set items. has_prop ''title'' e \<and> has_prop ''url'' e
                \<and> (isl (trimmedText P e ''title'') \<or> isl (trimmedText P e ''url'')))
          \<longrightarrow> loadUserBookmarks P n ls = [])
   \<and> (\<forall>raw items. ls STORAGE_KEY = Some raw \<and> raw \<noteq> [] \<and> JSON_parse P raw = Some (JArr items)
          \<and> (\<forall>e\<in>set items. has_prop ''title'' e \<and> has_prop ''url'' e
                \<longrightarrow> \<not> isl (trimmedText P e ''title'') \<and> \<not> isl (trimmedText P e ''url''))
          \<longrightarrow> map url (loadUserBookmarks P n ls) =
                map (\<lambda>e. projr (trimmedText P e ''url''))
                  (filter (\<lambda>e. has_prop ''title'' e \<and> has_prop ''url'' e
                     \<and> URL_new P (projr (trimmedText P e ''url'')) \<noteq> None) items))
   \<and> (\<forall>b\<in>set (loadUserBookmarks P n ls). URL_new P (url b) \<noteq> None)"
proof (intro conjI allI impI ballI)
  fix raw items
  assume a: "ls STORAGE_KEY = Some raw \<and> raw \<noteq> [] \<and> JSON_parse P raw = Some (JArr items)
          \<and> (\<forall>e\<in>set items. has_prop ''title'' e \<and> has_prop ''url'' e
                \<longrightarrow> \<not> isl (trimmedText P e ''title'') \<and> \<not> isl (trimmedText P e ''url''))"
  show "map url (loadUserBookmarks P n ls) =
                map (\<lambda>e. projr (trimmedText P e ''url''))
                  (filter (\<lambda>e. has_prop ''title'' e \<and> has_prop ''url'' e
                     \<and> URL_new P (projr (trimmedText P e ''url'')) \<noteq> None) items)"
  proof (rule loadUserBookmarks_array [where ls = ls and raw = raw and P = P])
    fix k e b k' assume "normalizeStored P k e = Inr (b, k')"
    then show "url b = projr (trimmedText P e ''url'')"
      using normalizeStored_Inr [of P k e b k'] by simp
  qed (use a in simp_all)
next
  fix raw items
  assume a: "ls STORAGE_KEY = Some raw \<and> JSON_parse P raw = Some (JArr items)
          \<and> (\<exists>e\<in>set items. has_prop ''title'' e \<and> has_prop ''url'' e
                \<and> (isl (trimmedText P e ''title'') \<or> isl (trimmedText P e ''url'')))"
  show "loadUserBookmarks P n ls = []"
    by (rule loadUserBookmarks_throws [where raw = raw and items = items]) (use a in simp_all)
next
  fix raw v
  assume "ls STORAGE_KEY = Some raw \<and> JSON_parse P raw = Some v \<and> (\<forall>items. v \<noteq> JArr items)"
  then show "loadUserBookmarks P n ls = []"
    by (cases v) (simp_all add: loadUserBookmarks_def)
next
  fix b assume "b \<in> set (loadUserBookmarks P n ls)"
  then show "URL_new P (url b) \<noteq> None" by (simp add: loadUserBookmarks_members)
qed (simp_all add: loadUserBookmarks_def)

text \<open>
  Claim C10, as amended. An element of the stored array that has no \<open>title\<close> property
  is dropped. Among the elements that have a \<open>title\<close> and a \<open>url\<close> property, and
  provided \<open>String\<close> converts the title and url of each of them, an element is kept
  exactly when its trimmed, stringified url parses, whatever its title; the title of
  its record is the trimmed, stringified title, and \<open>Untitled\<close> when that string is
  empty. Every record of any result has a non-empty title.
\<close>

theorem loadUserBookmarks_untitled:
  "(\<forall>raw items. ls STORAGE_KEY = Some raw \<and> raw \<noteq> [] \<and> JSON_parse P raw = Some (JArr items)
        \<and> (\<forall>e\<in>set items. has_prop ''title'' e \<and> has_prop ''url'' e
              \<longrightarrow> \<not> isl (trimmedText P e ''title'') \<and> \<not> isl (trimmedText P e ''url''))
        \<longrightarrow> map title (loadUserBookmarks P n ls) =
              map (\<lambda>e. if projr (trimmedText P e ''title'') = [] then ''Untitled''
                        else projr (trimmedText P e ''title''))
                (filter (\<lambda>e. has_prop ''title'' e \<and> has_prop ''url'' e
                   \<and> URL_new P (projr (trimmedText P e ''url'')) \<noteq> None) items))
   \<and> (\<forall>b\<in>set (loadUserBookmarks P n ls). title b \<noteq> [])"
proof (intro conjI allI impI ballI)
  fix raw items
  assume a: "ls STORAGE_KEY = Some raw \<and> raw \<noteq> [] \<and> JSON_parse P raw = Some (JArr items)
        \<and> (\<forall>e\<in>set items. has_prop ''title'' e \<and> has_prop ''url'' e
              \<longrightarrow> \<not> isl (trimmedText P e ''title'') \<and> \<not> isl (trimmedText P e ''url''))"
  show "map title (loadUserBookmarks P n ls) =
              map (\<lambda>e. if projr (trimmedText P e ''title'') = [] then ''Untitled''
                        else projr (trimmedText P e ''title''))
                (filter (\<lambda>e. has_prop ''title'' e \<and> has_prop ''url'' e
                   \<and> URL_new P (projr (trimmedText P e ''url'')) \<noteq> None) items)"
  proof (rule loadUserBookmarks_array [where ls = ls and raw = raw and P = P])
    fix k e b k' assume "normalizeStored P k e = Inr (b, k')"
    then show "title b = (if projr (trimmedText P e ''title'') = [] then ''Untitled''
                          else projr (trimmedText P e ''title''))"
      using normalizeStored_Inr [of P k e b k'] by auto
  qed (use a in simp_all)
next
  fix b assume b: "b \<in> set (loadUserBookmarks P n ls)"
  then show "title b \<noteq> []" by (simp add: loadUserBookmarks_members)
qed

text \<open>The example texts on the reference platform.\<close>

lemma ref_parse_examples:
  "JSON_parse ref_platform ''not json'' = None"
  "JSON_parse ref_platform ''{}'' = Some (JObj [])"
  "JSON_parse ref_platform example_stored = Some (JArr example_items)"
  by code_simp+

lemma ref_kept_examples:
  "filter (\<lambda>e. has_prop ''title'' e \<and> has_prop ''url'' e
             \<and> URL_new ref_platform (projr (trimmedText ref_platform e ''url'')) \<noteq> None)
     example_items = [example_items ! 0, example_items ! 3]"
  by code_simp

lemma ref_convertible_examples:
  "list_all (\<lambda>e. has_prop ''title'' e \<and> has_prop ''url'' e
                \<longrightarrow> \<not> isl (trimmedText ref_platform e ''title'')
                    \<and> \<not> isl (trimmedText ref_platform e ''url'')) example_items"
  by code_simp

theorem loadUserBookmarks_tolerant_witness:
  "loadUserBookmarks ref_platform 0 Map.empty = []
   \<and> loadUserBookmarks ref_platform 0 [STORAGE_KEY \<mapsto> []] = []
   \<and> loadUserBookmarks ref_platform 0 [STORAGE_KEY \<mapsto> ''not json''] = []
   \<and> loadUserBookmarks ref_platform 0 [STORAGE_KEY \<mapsto> ''{}''] = []
   \<and> map url (loadUserBookmarks ref_platform 0 [STORAGE_KEY \<mapsto> example_stored])
       = [''https://a.com/x'', ''https://github.com/y'']
   \<and> list_all (\<lambda>b. URL_new ref_platform (url b) \<noteq> None)
        (loadUserBookmarks ref_platform 0 [STORAGE_KEY \<mapsto> example_stored])"
proof -
  have ne: "example_stored \<noteq> []" by (simp add: example_stored_def)
  have urls: "map (\<lambda>e. projr (trimmedText ref_platform e ''url''))
                [example_items ! 0, example_items ! 3]
              = [''https://a.com/x'', ''https://github.com/y'']"
    by code_simp
  have c1: "loadUserBookmarks ref_platform 0 Map.empty = []"
    using loadUserBookmarks_tolerant [of Map.empty ref_platform 0] by simp
  have c2: "loadUserBookmarks ref_platform 0 [STORAGE_KEY \<mapsto> []] = []"
    using loadUserBookmarks_tolerant [of "[STORAGE_KEY \<mapsto> []]" ref_platform 0] by simp
  have c3: "loadUserBookmarks ref_platform 0 [STORAGE_KEY \<mapsto> ''not json''] = []"
    using loadUserBookmarks_tolerant [of "[STORAGE_KEY \<mapsto> ''not json'']" ref_platform 0]
      ref_parse_examples(1) by simp
  have c4: "loadUserBookmarks ref_platform 0 [STORAGE_KEY \<mapsto> ''{}''] = []"
    using loadUserBookmarks_tolerant [of "[STORAGE_KEY \<mapsto> ''{}'']" ref_platform 0]
      ref_parse_examples(2) by simp
  note t = loadUserBookmarks_tolerant [of "[STORAGE_KEY \<mapsto> example_stored]" ref_platform 0]
  have c5: "map url (loadUserBookmarks ref_platform 0 [STORAGE_KEY \<mapsto> example_stored])
       = [''https://a.com/x'', ''https://github.com/y'']"
  proof -
    have k: "[STORAGE_KEY \<mapsto> example_stored] STORAGE_KEY = Some example_stored" by simp
    from ref_convertible_examples
    have conv: "\<forall>e\<in>set example_items. has_prop ''title'' e \<and> has_prop ''url'' e
                \<longrightarrow> \<not> isl (trimmedText ref_platform e ''title'')
                    \<and> \<not> isl (trimmedText ref_platform e ''url'')"
      by (simp only: list_all_iff)
    from t k ne ref_parse_examples(3) conv
    have "map url (loadUserBookmarks ref_platform 0 [STORAGE_KEY \<mapsto> example_stored])
          = map (\<lambda>e. projr (trimmedText ref_platform e ''url''))
              (filter (\<lambda>e. has_prop ''title'' e \<and> has_prop ''url'' e
                 \<and> URL_new ref_platform (projr (trimmedText ref_platform e ''url'')) \<noteq> None)
                 example_items)"
      by blast
    then show ?thesis by (simp only: ref_kept_examples urls)
  qed
  have c6: "list_all (\<lambda>b. URL_new ref_platform (url b) \<noteq> None)
        (loadUserBookmarks ref_platform 0 [STORAGE_KEY \<mapsto> example_stored])"
    using t by (simp add: list_all_iff)
  from c1 c2 c3 c4 c5 c6 show ?thesis by blast
qed

text \<open>The example text: a blank title becomes \<open>Untitled\<close>, a numeric one its digits.\<close>

theorem loadUserBookmarks_untitled_witness:
  "map title (loadUserBookmarks ref_platform 0 [STORAGE_KEY \<mapsto> example_stored])
     = [''Untitled'', ''42'']
   \<and> list_all (\<lambda>b. title b \<noteq> [])
        (loadUserBookmarks ref_platform 0 [STORAGE_KEY \<mapsto> example_stored])"
proof -
  have ne: "example_stored \<noteq> []" by (simp add: example_stored_def)
  have titles: "map (\<lambda>e. if projr (trimmedText ref_platform e ''title'') = [] then ''Untitled''
                        else projr (trimmedText ref_platform e ''title''))
                [example_items ! 0, example_items ! 3]
              = [''Untitled'', ''42'']"
    by code_simp
  note t = loadUserBookmarks_untitled [of "[STORAGE_KEY \<mapsto> example_stored]" ref_platform 0]
  have c1: "map title (loadUserBookmarks ref_platform 0 [STORAGE_KEY \<mapsto> example_stored])
     = [''Untitled'', ''42'']"
  proof -
    have k: "[STORAGE_KEY \<mapsto> example_stored] STORAGE_KEY = Some example_stored" by simp
    from ref_convertible_examples
    have conv: "\<forall>e\<in>set example_items. has_prop ''title'' e \<and> has_prop ''url'' e
                \<longrightarrow> \<not> isl (trimmedText ref_platform e ''title'')
                    \<and> \<not> isl (trimmedText ref_platform e ''url'')"
      by (simp only: list_all_iff)
    from t k ne ref_parse_examples(3) conv
    have "map title (loadUserBookmarks ref_platform 0 [STORAGE_KEY \<mapsto> example_stored])
          = map (\<lambda>e. if projr (trimmedText ref_platform e ''title'') = [] then ''Untitled''
                        else projr (trimmedText ref_platform e ''title''))
              (filter (\<lambda>e. has_prop ''title'' e \<and> has_prop ''url'' e
                 \<and> URL_new ref_platform (projr (trimmedText ref_platform e ''url'')) \<noteq> None)
                 example_items)"
      by blast
    then show ?thesis by (simp only: ref_kept_examples titles)
  qed
  have c2: "list_all (\<lambda>b. title b \<noteq> [])
        (loadUserBookmarks ref_platform 0 [STORAGE_KEY \<mapsto> example_stored])"
    using t by (simp add: list_all_iff)
  from c1 c2 show ?thesis by blast
qed

text \<open>
  The claim as stated fails: the element without a title is dropped though the same
  element with an empty title is kept, and a title that is an object with a \<open>toString\<close>
  property empties the whole result.
\<close>

theorem loadUserBookmarks_title_counterexample:
  "loadUserBookmarks ref_platform 0 [STORAGE_KEY \<mapsto> example_no_title] = []
   \<and> map title (loadUserBookmarks ref_platform 0 [STORAGE_KEY \<mapsto> example_empty_title])
       = [''Untitled'']
   \<and> loadUserBookmarks ref_platform 0 [STORAGE_KEY \<mapsto> example_object_title] = []"
  by code_simp

section \<open>Import\<close>

lemma importEntry_cases:
  "importEntry P n e =
     (if is_object e \<and> trimmedString P e ''title'' \<noteq> [] \<and> trimmedString P e ''url'' \<noteq> []
         \<and> URL_new P (trimmedString P e ''url'') \<noteq> None
      then (Some \<lparr>id' = fst (idOrFresh P (snd (savedAtOrNow P n (getProp e ''savedAt''))) (getProp e ''id'')),
                 title = trimmedString P e ''title'',
                 url = trimmedString P e ''url'',
                 urlType = urlTypeValue (detectUrlType P (trimmedString P e ''url'')),
                 tags = stringTags P (getProp e ''tags''),
                 note = trimmedString P e ''note'',
                 savedAt = fst (savedAtOrNow P n (getProp e ''savedAt''))\<rparr>,
            snd (idOrFresh P (snd (savedAtOrNow P n (getProp e ''savedAt''))) (getProp e ''id'')))
      else (None, if is_object e then snd (savedAtOrNow P n (getProp e ''savedAt'')) else n))"
  by (simp add: importEntry_def Let_def split: prod.splits)

lemma importEntries_Nil_iff:
  "importEntries P n es = [] \<longleftrightarrow>
     (\<forall>e\<in>set es. \<not> (is_object e \<and> trimmedString P e ''title'' \<noteq> []
                      \<and> trimmedString P e ''url'' \<noteq> []
                      \<and> URL_new P (trimmedString P e ''url'') \<noteq> None))"
proof (induction es arbitrary: n)
  case Nil
  show ?case by simp
next
  case (Cons e es)
  show ?case
    by (simp add: importEntry_cases [of P n e] Cons.IH del: not_None_eq)
qed

lemma importEntries_all:
  assumes "\<And>k e b. fst (importEntry P k e) = Some b \<Longrightarrow> Q b"
  shows "\<forall>b\<in>set (importEntries P n es). Q b"
proof (induction es arbitrary: n)
  case Nil
  show ?case by simp
next
  case (Cons e es)
  obtain r k where r: "importEntry P n e = (r, k)" by (cases "importEntry P n e")
  show ?case
  proof (cases r)
    case None
    with r Cons show ?thesis by simp
  next
    case (Some b)
    with r assms [of n e b] have "Q b" by simp
    with r Some Cons show ?thesis by simp
  qed
qed

text \<open>
  Claim C6. An import text whose top level is not an array leaves the user collection
  as it is and sets the message \<open>Import failed: expected an array of bookmarks.\<close>. An
  array none of whose elements is accepted (an element is accepted when it is an object
  or array whose trimmed string \<open>title\<close> and \<open>url\<close> are non-empty and whose url parses)
  leaves the user collection as it is and sets the different message
  \<open>Import completed, but no valid bookmarks were found.\<close>. Both messages have the error
  tone. The texts \<open>{}\<close> and \<open>[{"title":""}]\<close> are instances of the two cases, given the
  values \<open>JSON.parse\<close> returns for them.
\<close>

theorem handleImport_rejections:
  \<open>(\<forall>v. JSON_parse P text = Some v \<and> (\<forall>entries. v \<noteq> JArr entries) \<longrightarrow>
       handleImport P n text previous
         = (previous, \<lparr>message = ''Import failed: expected an array of bookmarks.'', tone = Error\<rparr>))
   \<and> (\<forall>entries. JSON_parse P text = Some (JArr entries)
          \<and> (\<forall>e\<in>set entries. \<not> (is_object e \<and> trimmedString P e ''title'' \<noteq> []
                 \<and> trimmedString P e ''url'' \<noteq> []
                 \<and> URL_new P (trimmedString P e ''url'') \<noteq> None)) \<longrightarrow>
       handleImport P n text previous
         = (previous,
            \<lparr>message = ''Import completed, but no valid bookmarks were found.'', tone = Error\<rparr>))
   \<and> ''Import failed: expected an array of bookmarks.''
        \<noteq> ''Import completed, but no valid bookmarks were found.''
   \<and> (JSON_parse P ''{}'' = Some (JObj []) \<longrightarrow>
        handleImport P n ''{}'' previous
          = (previous, \<lparr>message = ''Import failed: expected an array of bookmarks.'', tone = Error\<rparr>))
   \<and> (JSON_parse P ''[{"title":""}]'' = Some (JArr [JObj [(''title'', JStr [])]]) \<longrightarrow>
        handleImport P n ''[{"title":""}]'' previous
          = (previous,
             \<lparr>message = ''Import completed, but no valid bookmarks were found.'', tone = Error\<rparr>))\<close>
proof (intro conjI allI impI)
  fix v
  assume "JSON_parse P text = Some v \<and> (\<forall>entries. v \<noteq> JArr entries)"
  then show "handleImport P n text previous
         = (previous, \<lparr>message = ''Import failed: expected an array of bookmarks.'', tone = Error\<rparr>)"
    by (cases v) (simp_all add: handleImport_def)
next
  fix entries
  assume a: "JSON_parse P text = Some (JArr entries)
          \<and> (\<forall>e\<in>set entries. \<not> (is_object e \<and> trimmedString P e ''title'' \<noteq> []
                 \<and> trimmedString P e ''url'' \<noteq> []
                 \<and> URL_new P (trimmedString P e ''url'') \<noteq> None))"
  then have "importEntries P n entries = []" unfolding importEntries_Nil_iff by (rule conjunct2)
  with a show "handleImport P n text previous
         = (previous,
            \<lparr>message = ''Import completed, but no valid bookmarks were found.'', tone = Error\<rparr>)"
    by (simp add: handleImport_def)
next
  show "''Import failed: expected an array of bookmarks.''
        \<noteq> ''Import completed, but no valid bookmarks were found.''" by simp
next
  assume "JSON_parse P ''{}'' = Some (JObj [])"
  then show "handleImport P n ''{}'' previous
          = (previous, \<lparr>message = ''Import failed: expected an array of bookmarks.'', tone = Error\<rparr>)"
    by (simp add: handleImport_def)
next
  assume a: \<open>JSON_parse P ''[{"title":""}]'' = Some (JArr [JObj [(''title'', JStr [])]])\<close>
  have "importEntries P n [JObj [(''title'', JStr [])]] = []"
    unfolding importEntries_Nil_iff by (simp add: trimmedString_def getProp_def)
  with a show \<open>handleImport P n ''[{"title":""}]'' previous
          = (previous,
             \<lparr>message = ''Import completed, but no valid bookmarks were found.'', tone = Error\<rparr>)\<close>
    by (simp add: handleImport_def)
qed

lemma ref_parse_import_examples:
  \<open>JSON_parse ref_platform ''[{"title":""}]'' = Some (JArr [JObj [(''title'', JStr [])]])\<close>
  by code_simp

theorem handleImport_rejections_witness:
  \<open>handleImport ref_platform 0 ''{}'' example_user
     = (example_user, \<lparr>message = ''Import failed: expected an array of bookmarks.'', tone = Error\<rparr>)
   \<and> handleImport ref_platform 0 ''[{"title":""}]'' example_user
     = (example_user,
        \<lparr>message = ''Import completed, but no valid bookmarks were found.'', tone = Error\<rparr>)\<close>
proof -
  have p1: "JSON_parse ref_platform ''{}'' = Some (JObj [])" by code_simp
  from handleImport_rejections [of ref_platform "''{}''" 0 example_user] p1
  have c1: "handleImport ref_platform 0 ''{}'' example_user
     = (example_user, \<lparr>message = ''Import failed: expected an array of bookmarks.'', tone = Error\<rparr>)"
    by blast
  from handleImport_rejections [of ref_platform "''{}''" 0 example_user] ref_parse_import_examples
  have c2: \<open>handleImport ref_platform 0 ''[{"title":""}]'' example_user
     = (example_user,
        \<lparr>message = ''Import completed, but no valid bookmarks were found.'', tone = Error\<rparr>)\<close>
    by blast
  from c1 c2 show ?thesis by blast
qed

lemma getProp_without_urlType:
  assumes "k \<noteq> ''urlType''"
  shows "getProp (JObj (filter (\<lambda>kv. fst kv \<noteq> ''urlType'') kvs)) k = getProp (JObj kvs) k"
  using assms by (induction kvs) (auto simp: getProp_def)

text \<open>
  Claim C4, as amended. Every record \<open>handleImport\<close> accepts gets the \<open>urlType\<close> the
  classifier computes from its trimmed url, whether or not the payload has a \<open>urlType\<close>
  property: the import of an object entry is the import of the same entry with any
  \<open>urlType\<close> property removed.
\<close>

theorem importEntries_urlType_detected:
  "(\<forall>b\<in>set (importEntries P n entries). urlType b = urlTypeValue (detectUrlType P (url b)))
   \<and> importEntry P n (JObj kvs)
       = importEntry P n (JObj (filter (\<lambda>kv. fst kv \<noteq> ''urlType'') kvs))"
proof
  show "\<forall>b\<in>set (importEntries P n entries). urlType b = urlTypeValue (detectUrlType P (url b))"
    by (rule importEntries_all) (auto simp: importEntry_cases split: if_splits)
next
  show "importEntry P n (JObj kvs)
       = importEntry P n (JObj (filter (\<lambda>kv. fst kv \<noteq> ''urlType'') kvs))"
    by (simp add: importEntry_cases trimmedString_def getProp_without_urlType is_object_def
          cong: if_cong)
qed

text \<open>The example import on the reference platform.\<close>

lemma ref_parse_example_import:
  "JSON_parse ref_platform example_import = Some (JArr example_entries)"
  by code_simp

lemma ref_example_imported:
  "importEntries ref_platform 0 example_entries =
     [\<lparr>id' = ''u-1'', title = ''New'', url = ''https://github.com/x'', urlType = JStr ''GitHub'',
       tags = [], note = [], savedAt = ''2025-02-02T00:00:00.000Z''\<rparr>]"
  by code_simp

theorem importEntries_urlType_detected_witness:
  "map urlType (importEntries ref_platform 0 example_entries)
     = map (\<lambda>b. urlTypeValue (detectUrlType ref_platform (url b)))
         (importEntries ref_platform 0 example_entries)
   \<and> importEntries ref_platform 0 example_entries \<noteq> []"
proof -
  from importEntries_urlType_detected [of ref_platform 0 example_entries]
  have "\<forall>b\<in>set (importEntries ref_platform 0 example_entries).
          urlType b = urlTypeValue (detectUrlType ref_platform (url b))"
    by blast
  then have "map urlType (importEntries ref_platform 0 example_entries)
     = map (\<lambda>b. urlTypeValue (detectUrlType ref_platform (url b)))
         (importEntries ref_platform 0 example_entries)"
    by simp
  then show ?thesis by (simp add: ref_example_imported)
qed

text \<open>
  The claim as stated fails: the payload says \<open>Miro Board\<close>, the imported record says
  \<open>GitHub\<close>.
\<close>

theorem import_keeps_urlType_counterexample:
  "JSON_parse ref_platform example_import = Some (JArr example_entries)
   \<and> getProp (example_entries ! 0) ''urlType'' = Some (JStr ''Miro Board'')
   \<and> map urlType (fst (handleImport ref_platform 0 example_import [])) = [JStr ''GitHub'']
   \<and> JStr ''GitHub'' \<noteq> JStr ''Miro Board''"
proof -
  have "getProp (example_entries ! 0) ''urlType'' = Some (JStr ''Miro Board'')"
    by (simp add: example_entries_def getProp_def)
  moreover have "map urlType (fst (handleImport ref_platform 0 example_import [])) = [JStr ''GitHub'']"
    by (simp add: handleImport_def ref_parse_example_import ref_example_imported
        Array_sort_def dedupeById_def)
  ultimately show ?thesis using ref_parse_example_import by simp
qed

section \<open>Merging an import into the user collection\<close>

lemma sorted_dedupe_mset: "mset (Array_sort c (dedupeById M)) = mset (dedupeById M)"
  by (rule mset_Array_sort)

lemma sorted_dedupe_first:
  assumes "find (\<lambda>x. id' x = i) M = Some b"
  shows "filter (\<lambda>x. id' x = i) (Array_sort c (dedupeById M)) = [b]"
proof (rule filter_single_mset [OF sorted_dedupe_mset])
  show "filter (\<lambda>x. id' x = i) (dedupeById M) = [b]"
    using assms by (simp add: dedupeById_def dedupeLoop_filter_id)
qed

lemma sorted_dedupe_set: "set (Array_sort c (dedupeById M)) = set (dedupeById M)"
  using sorted_dedupe_mset by (rule mset_eq_setD)

lemma sorted_dedupe_ids: "id' ` set (Array_sort c (dedupeById M)) = id' ` set M"
  by (simp only: sorted_dedupe_set) (simp add: dedupeById_def dedupeLoop_ids)

lemma sorted_dedupe_distinct: "distinct (map id' (Array_sort c (dedupeById M)))"
proof -
  have "mset (map id' (Array_sort c (dedupeById M))) = mset (map id' (dedupeById M))"
    by (simp add: sorted_dedupe_mset)
  then have "distinct (map id' (Array_sort c (dedupeById M))) = distinct (map id' (dedupeById M))"
    by (rule mset_eq_imp_distinct_iff)
  then show ?thesis by (simp add: dedupeById_def dedupeLoop_distinct)
qed

text \<open>
  Claim C5. When \<open>handleImport\<close> accepts at least one entry, the new user collection
  has pairwise distinct ids, namely the ids of the accepted entries and of the previous
  records. For the id of an accepted entry it holds exactly one record, the first
  accepted entry of that id, so a previous record of the same id is replaced; for any
  other id of a previous record it holds the first previous record of that id.
\<close>

theorem handleImport_import_wins:
  "\<forall>entries. JSON_parse P text = Some (JArr entries) \<and> importEntries P n entries \<noteq> [] \<longrightarrow>
     (let imported = importEntries P n entries;
          merged = fst (handleImport P n text previous)
      in distinct (map id' merged)
         \<and> id' ` set merged = id' ` set imported \<union> id' ` set previous
         \<and> (\<forall>b\<in>set imported. \<exists>c. find (\<lambda>x. id' x = id' b) imported = Some c
                                   \<and> filter (\<lambda>x. id' x = id' b) merged = [c])
         \<and> (\<forall>p\<in>set previous. \<forall>b\<in>set imported.
                id' p = id' b \<and> p \<notin> set imported \<longrightarrow> p \<notin> set merged)
         \<and> (\<forall>p\<in>set previous. id' p \<notin> id' ` set imported \<longrightarrow>
                (\<exists>c. find (\<lambda>x. id' x = id' p) previous = Some c
                     \<and> filter (\<lambda>x. id' x = id' p) merged = [c])))"
proof (intro allI impI)
  fix entries
  assume a: "JSON_parse P text = Some (JArr entries) \<and> importEntries P n entries \<noteq> []"
  define imported where "imported = importEntries P n entries"
  define merged where "merged = fst (handleImport P n text previous)"
  have merged: "merged = Array_sort (bySavedAtDesc P) (dedupeById (imported @ previous))"
    using a by (simp add: merged_def imported_def handleImport_def Let_def)
  have b1: "distinct (map id' merged)" unfolding merged by (rule sorted_dedupe_distinct)
  have b2: "id' ` set merged = id' ` set imported \<union> id' ` set previous"
    unfolding merged by (simp add: sorted_dedupe_ids image_Un)
  have b3: "\<exists>c. find (\<lambda>x. id' x = id' b) imported = Some c
               \<and> filter (\<lambda>x. id' x = id' b) merged = [c]" if "b \<in> set imported" for b
  proof -
    from that obtain c where c: "find (\<lambda>x. id' x = id' b) imported = Some c"
      using find_member_Some [of b imported "\<lambda>x. id' x = id' b"] by auto
    then have "find (\<lambda>x. id' x = id' b) (imported @ previous) = Some c"
      by (simp add: find_append_case)
    then have "filter (\<lambda>x. id' x = id' b) merged = [c]"
      unfolding merged by (rule sorted_dedupe_first)
    with c show ?thesis by blast
  qed
  have b4: "p \<notin> set merged"
    if "p \<in> set previous" "b \<in> set imported" "id' p = id' b \<and> p \<notin> set imported" for p b
  proof
    assume "p \<in> set merged"
    with that(3) have "p \<in> set (filter (\<lambda>x. id' x = id' b) merged)" by simp
    moreover from b3 [OF that(2)] obtain c
      where "find (\<lambda>x. id' x = id' b) imported = Some c"
        "filter (\<lambda>x. id' x = id' b) merged = [c]" by blast
    ultimately have "find (\<lambda>x. id' x = id' b) imported = Some p" by simp
    then have "p \<in> set imported" unfolding find_Some_iff by auto
    with that(3) show False by simp
  qed
  have b5: "\<exists>c. find (\<lambda>x. id' x = id' p) previous = Some c
               \<and> filter (\<lambda>x. id' x = id' p) merged = [c]"
    if "p \<in> set previous" "id' p \<notin> id' ` set imported" for p
  proof -
    from that(1) obtain c where c: "find (\<lambda>x. id' x = id' p) previous = Some c"
      using find_member_Some [of p previous "\<lambda>x. id' x = id' p"] by auto
    have "find (\<lambda>x. id' x = id' p) imported = None"
      using that(2) by (auto simp: find_None_iff image_iff)
    with c have "find (\<lambda>x. id' x = id' p) (imported @ previous) = Some c"
      by (simp add: find_append_case)
    then have "filter (\<lambda>x. id' x = id' p) merged = [c]"
      unfolding merged by (rule sorted_dedupe_first)
    with c show ?thesis by blast
  qed
  from b1 b2 b3 b4 b5
  show "let imported = importEntries P n entries;
            merged = fst (handleImport P n text previous)
        in distinct (map id' merged)
         \<and> id' ` set merged = id' ` set imported \<union> id' ` set previous
         \<and> (\<forall>b\<in>set imported. \<exists>c. find (\<lambda>x. id' x = id' b) imported = Some c
                                   \<and> filter (\<lambda>x. id' x = id' b) merged = [c])
         \<and> (\<forall>p\<in>set previous. \<forall>b\<in>set imported.
                id' p = id' b \<and> p \<notin> set imported \<longrightarrow> p \<notin> set merged)
         \<and> (\<forall>p\<in>set previous. id' p \<notin> id' ` set imported \<longrightarrow>
                (\<exists>c. find (\<lambda>x. id' x = id' p) previous = Some c
                     \<and> filter (\<lambda>x. id' x = id' p) merged = [c]))"
    unfolding Let_def imported_def [symmetric] merged_def [symmetric] by blast
qed

text \<open>
  The example import replaces both example user records of id \<open>u-1\<close>.
\<close>

theorem handleImport_import_wins_witness:
  "importEntries ref_platform 0 example_entries \<noteq> []
   \<and> filter (\<lambda>x. id' x = ''u-1'') (fst (handleImport ref_platform 0 example_import example_user))
       = importEntries ref_platform 0 example_entries
   \<and> example_user ! 1 \<notin> set (fst (handleImport ref_platform 0 example_import example_user))"
proof -
  let ?b = "\<lparr>id' = ''u-1'', title = ''New'', url = ''https://github.com/x'',
             urlType = JStr ''GitHub'', tags = [], note = [],
             savedAt = ''2025-02-02T00:00:00.000Z''\<rparr>"
  have ne: "importEntries ref_platform 0 example_entries \<noteq> []"
    by (simp add: ref_example_imported)
  have f: "find (\<lambda>x. id' x = id' ?b) (importEntries ref_platform 0 example_entries) = Some ?b"
    by (simp add: ref_example_imported)
  have m: "?b \<in> set (importEntries ref_platform 0 example_entries)"
    by (simp add: ref_example_imported)
  have u: "example_user ! 1 \<in> set example_user" "id' (example_user ! 1) = id' ?b"
    "example_user ! 1 \<notin> set (importEntries ref_platform 0 example_entries)"
    by (simp_all add: example_user_def ref_example_imported)
  note t = handleImport_import_wins [of ref_platform example_import 0 example_user,
      unfolded Let_def, rule_format, OF conjI, OF ref_parse_example_import ne]
  from t m f have c1: "filter (\<lambda>x. id' x = id' ?b)
       (fst (handleImport ref_platform 0 example_import example_user)) = [?b]"
    by (metis option.inject)
  from t m u have c2:
    "example_user ! 1 \<notin> set (fst (handleImport ref_platform 0 example_import example_user))"
    by blast
  from ne c1 c2 show ?thesis by (simp add: ref_example_imported)
qed

section \<open>Export, then import\<close>

lemma importEntry_Bookmark_json:
  assumes "trim P (title b) \<noteq> []" "trim P (url b) \<noteq> []" "URL_new P (trim P (url b)) \<noteq> None"
  shows "\<exists>c k. importEntry P n (Bookmark_json b) = (Some c, k) \<and> id' c = id' b"
  using assms
  by (simp add: importEntry_cases Bookmark_json_def trimmedString_def getProp_def is_object_def
      idOrFresh_def)

lemma importEntries_Bookmark_json:
  assumes "\<forall>b\<in>set user. trim P (title b) \<noteq> [] \<and> trim P (url b) \<noteq> []
                          \<and> URL_new P (trim P (url b)) \<noteq> None"
  shows "map id' (importEntries P n (map Bookmark_json user)) = map id' user"
  using assms
proof (induction user arbitrary: n)
  case Nil
  show ?case by simp
next
  case (Cons b user)
  then obtain c k where c: "importEntry P n (Bookmark_json b) = (Some c, k)" "id' c = id' b"
    using importEntry_Bookmark_json [of P b n] by auto
  with Cons show ?case by simp
qed

text \<open>
  Claim C7. Let the user collection be non-empty and each of its records normalized:
  its title and url are non-empty and unchanged by trimming, and the url parses. Let
  \<open>JSON.parse\<close> read back the array \<open>JSON.stringify\<close> writes for the collection. Then
  \<open>handleExport\<close> offers a text that parses to the array of exactly the user records,
  each with its seven fields, and \<open>handleImport\<close> of that text into an empty user
  collection accepts every record and gives a collection with the same set of ids.
\<close>

theorem export_import_roundtrip:
  "user \<noteq> []
   \<and> (\<forall>b\<in>set user. title b \<noteq> [] \<and> trim P (title b) = title b
                    \<and> url b \<noteq> [] \<and> trim P (url b) = url b \<and> URL_new P (url b) \<noteq> None)
   \<and> JSON_parse P (JSON_stringify P (JArr (map Bookmark_json user)))
       = Some (JArr (map Bookmark_json user))
   \<longrightarrow> (\<exists>text. fst (handleExport P user) = Some text
          \<and> JSON_parse P text = Some (JArr (map Bookmark_json user))
          \<and> map id' (importEntries P n (map Bookmark_json user)) = map id' user
          \<and> id' ` set (fst (handleImport P n text [])) = id' ` set user)"
proof
  assume a: "user \<noteq> []
   \<and> (\<forall>b\<in>set user. title b \<noteq> [] \<and> trim P (title b) = title b
                    \<and> url b \<noteq> [] \<and> trim P (url b) = url b \<and> URL_new P (url b) \<noteq> None)
   \<and> JSON_parse P (JSON_stringify P (JArr (map Bookmark_json user)))
       = Some (JArr (map Bookmark_json user))"
  define exported where "exported = JSON_stringify P (JArr (map Bookmark_json user))"
  define imported where "imported = importEntries P n (map Bookmark_json user)"
  have e: "fst (handleExport P user) = Some exported"
    using a by (simp add: handleExport_def exported_def)
  have p: "JSON_parse P exported = Some (JArr (map Bookmark_json user))"
    using a by (simp add: exported_def)
  have "\<forall>b\<in>set user. trim P (title b) \<noteq> [] \<and> trim P (url b) \<noteq> []
                          \<and> URL_new P (trim P (url b)) \<noteq> None"
    using a by simp
  then have ids: "map id' imported = map id' user"
    unfolding imported_def by (rule importEntries_Bookmark_json)
  with a have ne: "imported \<noteq> []" by auto
  have "fst (handleImport P n exported []) = Array_sort (bySavedAtDesc P) (dedupeById imported)"
    using p ne by (simp add: handleImport_def imported_def Let_def)
  then have "id' ` set (fst (handleImport P n exported [])) = id' ` set imported"
    by (simp only: sorted_dedupe_ids)
  also have "\<dots> = set (map id' imported)" by simp
  also have "\<dots> = id' ` set user" by (simp only: ids) simp
  finally have "id' ` set (fst (handleImport P n exported [])) = id' ` set user" .
  with e p ids show "\<exists>text. fst (handleExport P user) = Some text
          \<and> JSON_parse P text = Some (JArr (map Bookmark_json user))
          \<and> map id' (importEntries P n (map Bookmark_json user)) = map id' user
          \<and> id' ` set (fst (handleImport P n text [])) = id' ` set user"
    unfolding imported_def by blast
qed

text \<open>
  The records \<open>loadUserBookmarks\<close> and \<open>handleImport\<close> produce are normalized in that
  sense, on a platform whose \<open>trim\<close> is idempotent and leaves \<open>Untitled\<close> alone and
  whose URL parser rejects the empty string.
\<close>

lemma trimmedText_trimmed:
  assumes "trimmedText P e k = Inr v" "\<And>s. trim P (trim P s) = trim P s"
  shows "trim P v = v"
  using assms by (auto simp: trimmedText_def split: sum.splits)

lemma loadUserBookmarks_normalized:
  assumes idem: "\<And>s. trim P (trim P s) = trim P s"
    and untitled: "trim P ''Untitled'' = ''Untitled''"
    and empty: "URL_new P [] = None"
  shows "\<forall>b\<in>set (loadUserBookmarks P n ls).
           title b \<noteq> [] \<and> trim P (title b) = title b
           \<and> url b \<noteq> [] \<and> trim P (url b) = url b \<and> URL_new P (url b) \<noteq> None"
proof
  fix b assume b: "b \<in> set (loadUserBookmarks P n ls)"
  from loadUserBookmarks_cases [of P n ls] b
  obtain xs ys where ys: "mapTick (normalizeStored P) n xs = Inr ys"
    and l: "loadUserBookmarks P n ls = filter (\<lambda>item. URL_new P (url item) \<noteq> None) ys"
    by auto
  have "\<forall>y\<in>set ys. trim P (title y) = title y \<and> trim P (url y) = url y"
  proof (rule mapTick_all [OF _ ys])
    fix k x y k' assume "normalizeStored P k x = Inr (y, k')"
    from normalizeStored_Inr [OF this] obtain t where
      u: "trimmedText P x ''url'' = Inr (url y)" and t: "trimmedText P x ''title'' = Inr t"
      and ty: "title y = (if t = [] then ''Untitled'' else t)" by blast
    from trimmedText_trimmed [OF t idem] ty untitled have "trim P (title y) = title y" by simp
    with trimmedText_trimmed [OF u idem] show "trim P (title y) = title y \<and> trim P (url y) = url y"
      by simp
  qed
  moreover from b l have "b \<in> set ys" by simp
  moreover from loadUserBookmarks_members [OF b]
  have m: "URL_new P (url b) \<noteq> None" "title b \<noteq> []" by simp_all
  moreover from m(1) empty have "url b \<noteq> []" by auto
  ultimately show "title b \<noteq> [] \<and> trim P (title b) = title b
           \<and> url b \<noteq> [] \<and> trim P (url b) = url b \<and> URL_new P (url b) \<noteq> None"
    by blast
qed

lemma importEntries_normalized:
  assumes "\<And>s. trim P (trim P s) = trim P s"
  shows "\<forall>b\<in>set (importEntries P n es).
           title b \<noteq> [] \<and> trim P (title b) = title b
           \<and> url b \<noteq> [] \<and> trim P (url b) = url b \<and> URL_new P (url b) \<noteq> None"
proof (rule importEntries_all)
  fix k e b assume "fst (importEntry P k e) = Some b"
  then show "title b \<noteq> [] \<and> trim P (title b) = title b
           \<and> url b \<noteq> [] \<and> trim P (url b) = url b \<and> URL_new P (url b) \<noteq> None"
    using assms
    by (auto simp: importEntry_cases trimmedString_def split: if_splits option.splits json.splits)
qed

lemma ref_roundtrip_example:
  "JSON_parse ref_platform (JSON_stringify ref_platform (JArr (map Bookmark_json example_user)))
     = Some (JArr (map Bookmark_json example_user))"
  by code_simp

lemma ref_normalized_example:
  "list_all (\<lambda>b. title b \<noteq> [] \<and> trim ref_platform (title b) = title b
                    \<and> url b \<noteq> [] \<and> trim ref_platform (url b) = url b
                    \<and> URL_new ref_platform (url b) \<noteq> None) example_user"
  by code_simp

theorem export_import_roundtrip_witness:
  "example_user \<noteq> []
   \<and> list_all (\<lambda>b. title b \<noteq> [] \<and> trim ref_platform (title b) = title b
                    \<and> url b \<noteq> [] \<and> trim ref_platform (url b) = url b
                    \<and> URL_new ref_platform (url b) \<noteq> None) example_user
   \<and> JSON_parse ref_platform (JSON_stringify ref_platform (JArr (map Bookmark_json example_user)))
       = Some (JArr (map Bookmark_json example_user))
   \<and> (\<exists>text. fst (handleExport ref_platform example_user) = Some text
          \<and> id' ` set (fst (handleImport ref_platform 0 text [])) = {''repo-zustand'', ''u-1''})"
proof -
  have ne: "example_user \<noteq> []" by (simp add: example_user_def)
  have ids: "id' ` set example_user = {''repo-zustand'', ''u-1''}"
    by (simp add: example_user_def)
  from ref_normalized_example
  have norm: "\<forall>b\<in>set example_user. title b \<noteq> [] \<and> trim ref_platform (title b) = title b
                    \<and> url b \<noteq> [] \<and> trim ref_platform (url b) = url b
                    \<and> URL_new ref_platform (url b) \<noteq> None"
    by (simp only: list_all_iff)
  from export_import_roundtrip [of example_user ref_platform 0] ne norm ref_roundtrip_example
  have "\<exists>text. fst (handleExport ref_platform example_user) = Some text
          \<and> id' ` set (fst (handleImport ref_platform 0 text [])) = id' ` set example_user"
    by blast
  with ne ref_normalized_example ref_roundtrip_example show ?thesis
    by (simp only: ids) blast
qed

section \<open>Restoring the draft\<close>

text \<open>
  The effect that runs when the component mounts overlays the stored draft field by
  field: a stored property that is a string replaces the field, anything else leaves
  it. Without a stored draft, and with one that is not valid JSON, the form is unchanged.
\<close>

lemma draftRestoreEffect_overlay:
  assumes "ls DRAFT_KEY = Some raw" "raw \<noteq> []" "JSON_parse P raw = Some (JObj kvs)"
  shows "\<exists>f st. draftRestoreEffect P ls previous = Inr (f, st)
           \<and> titleField f = (case map_of kvs ''title'' of Some (JStr s) \<Rightarrow> s | _ \<Rightarrow> titleField previous)
           \<and> urlField f = (case map_of kvs ''url'' of Some (JStr s) \<Rightarrow> s | _ \<Rightarrow> urlField previous)
           \<and> tagsField f = (case map_of kvs ''tags'' of Some (JStr s) \<Rightarrow> s | _ \<Rightarrow> tagsField previous)
           \<and> noteField f = (case map_of kvs ''note'' of Some (JStr s) \<Rightarrow> s | _ \<Rightarrow> noteField previous)"
  using assms by (simp add: draftRestoreEffect_def getProp_def)

lemma draftRestoreEffect_absent:
  assumes "ls DRAFT_KEY = None \<or> ls DRAFT_KEY = Some []
           \<or> (\<exists>raw. ls DRAFT_KEY = Some raw \<and> JSON_parse P raw = None)"
  shows "draftRestoreEffect P ls previous = Inr (previous, None)"
  using assms by (auto simp: draftRestoreEffect_def)

lemma handleRestoreDraft_absent:
  assumes "ls DRAFT_KEY = None"
  shows "fst (handleRestoreDraft P ls form) = form"
  using assms by (simp add: handleRestoreDraft_def)

text \<open>
  Claim C8 describes the overlay, and the mount-time effect implements it. The button
  handler \<open>handleRestoreDraft\<close> does not: on the stored partial draft
  \<open>{"url":"https://a.com"}\<close> and the form \<open>{title:"x", url:"", tags:"", note:""}\<close> the
  effect gives \<open>{title:"x", url:"https://a.com", tags:"", note:""}\<close>, while the handler
  makes the parsed object itself the form state, which has no \<open>title\<close>, \<open>tags\<close> or
  \<open>note\<close>. The effect in turn throws on the stored text \<open>null\<close>.
\<close>

theorem handleRestoreDraft_replaces_form:
  "draftRestoreEffect ref_platform [DRAFT_KEY \<mapsto> example_draft] example_baseline
     = Inr (\<lparr>titleField = ''x'', urlField = ''https://a.com'', tagsField = [], noteField = []\<rparr>,
            Some \<lparr>message = ''Draft restored from cache.'', tone = Success\<rparr>)
   \<and> handleRestoreDraft ref_platform [DRAFT_KEY \<mapsto> example_draft] (FormFields_json example_baseline)
     = (JObj [(''url'', JStr ''https://a.com'')], \<lparr>message = ''Draft restored.'', tone = Success\<rparr>)
   \<and> JObj [(''url'', JStr ''https://a.com'')]
       \<noteq> FormFields_json
           \<lparr>titleField = ''x'', urlField = ''https://a.com'', tagsField = [], noteField = []\<rparr>
   \<and> draftRestoreEffect ref_platform [DRAFT_KEY \<mapsto> ''null''] example_baseline = Inl TypeError"
proof -
  have p: "JSON_parse ref_platform example_draft = Some (JObj [(''url'', JStr ''https://a.com'')])"
    "JSON_parse ref_platform ''null'' = Some JNull"
    by code_simp+
  have ne: "example_draft \<noteq> []" by (simp add: example_draft_def)
  show ?thesis
    by (simp add: draftRestoreEffect_def handleRestoreDraft_def p ne getProp_def
        example_baseline_def FormFields_json_def)
qed

section \<open>Filtering\<close>

lemma String_includes_sublist: "String_includes hay needle = sublist needle hay"
  by (induction hay) (simp_all add: sublist_Cons_right)

lemma join_space_four: "join sep [a, b, c, d] = a @ sep @ b @ sep @ c @ sep @ d"
  by simp

text \<open>
  Claim C9, as amended. The search text is trimmed and lower-cased first. A record is
  kept when (the tag is empty or is one of the record's tags) and (the trimmed,
  lower-cased search is empty or occurs as a substring of the lower-cased haystack).
  The haystack is the title, the note, the space-joined tags and the host name, joined
  by spaces; the host name is the URL's host without a leading \<open>www.\<close>, and the url
  string itself when the url does not parse. The records kept stand in the order of
  the collection.
\<close>

theorem filteredBookmarks_trimmed_search:
  "filteredBookmarks P filters combined =
     filter (\<lambda>b. (tag filters = [] \<or> tag filters \<in> set (tags b))
                \<and> (toLowerCase P (trim P (search filters)) = []
                    \<or> sublist (toLowerCase P (trim P (search filters)))
                         (toLowerCase P (title b @ '' '' @ note b @ '' '' @ join '' '' (tags b)
                                          @ '' '' @ getHostname P (url b)))))
       combined
   \<and> getHostname P u =
       (case URL_new P u of
          None \<Rightarrow> u
        | Some parsed \<Rightarrow> (if prefix ''www.'' (hostname parsed) then drop 4 (hostname parsed)
                          else hostname parsed))"
proof
  show "filteredBookmarks P filters combined =
     filter (\<lambda>b. (tag filters = [] \<or> tag filters \<in> set (tags b))
                \<and> (toLowerCase P (trim P (search filters)) = []
                    \<or> sublist (toLowerCase P (trim P (search filters)))
                         (toLowerCase P (title b @ '' '' @ note b @ '' '' @ join '' '' (tags b)
                                          @ '' '' @ getHostname P (url b)))))
       combined"
    unfolding filteredBookmarks_def Let_def String_includes_sublist join_space_four
    by (rule filter_cong) auto
next
  show "getHostname P u =
       (case URL_new P u of
          None \<Rightarrow> u
        | Some parsed \<Rightarrow> (if prefix ''www.'' (hostname parsed) then drop 4 (hostname parsed)
                          else hostname parsed))"
    by (simp add: getHostname_def Let_def split: option.splits)
qed

text \<open>A search for \<open>"CSS "\<close> in the combined example collections.\<close>

theorem filteredBookmarks_trimmed_search_witness:
  "map id' (filteredBookmarks ref_platform \<lparr>search = ''CSS '', tag = []\<rparr>
              (combinedBookmarks ref_platform seedBookmarks example_user))
     = [''article-css-clamp'', ''u-1'', ''blog-dark-mode-css'']
   \<and> getHostname ref_platform ''https://www.w3.org/WAI/ARIA/apg/'' = ''w3.org''"
proof -
  have "map id' (filter (\<lambda>b. (tag \<lparr>search = ''CSS '', tag = []\<rparr> = []
                     \<or> tag \<lparr>search = ''CSS '', tag = []\<rparr> \<in> set (tags b))
                \<and> (toLowerCase ref_platform (trim ref_platform (search \<lparr>search = ''CSS '', tag = []\<rparr>)) = []
                    \<or> sublist (toLowerCase ref_platform (trim ref_platform (search \<lparr>search = ''CSS '', tag = []\<rparr>)))
                         (toLowerCase ref_platform (title b @ '' '' @ note b @ '' '' @ join '' '' (tags b)
                                          @ '' '' @ getHostname ref_platform (url b)))))
       (combinedBookmarks ref_platform seedBookmarks example_user))
     = [''article-css-clamp'', ''u-1'', ''blog-dark-mode-css'']"
    by code_simp
  moreover have "(case URL_new ref_platform ''https://www.w3.org/WAI/ARIA/apg/'' of
          None \<Rightarrow> ''https://www.w3.org/WAI/ARIA/apg/''
        | Some parsed \<Rightarrow> (if prefix ''www.'' (hostname parsed) then drop 4 (hostname parsed)
                          else hostname parsed)) = ''w3.org''"
    by code_simp
  ultimately show ?thesis
    using filteredBookmarks_trimmed_search [of ref_platform "\<lparr>search = ''CSS '', tag = []\<rparr>"
        "combinedBookmarks ref_platform seedBookmarks example_user"
        "''https://www.w3.org/WAI/ARIA/apg/''"]
    by simp
qed

text \<open>
  The claim as stated fails: the search \<open>" css"\<close> is not empty and does not occur in the
  haystack \<open>"css   a.com"\<close>, yet the record is returned.
\<close>

theorem filteredBookmarks_untrimmed_counterexample:
  "filteredBookmarks ref_platform \<lparr>search = '' css'', tag = []\<rparr> [example_css] = [example_css]
   \<and> toLowerCase ref_platform (join '' '' [title example_css, note example_css,
                                              join '' '' (tags example_css),
                                              getHostname ref_platform (url example_css)])
       = ''css   a.com''
   \<and> \<not> ('' css'' = [] \<or> sublist (toLowerCase ref_platform '' css'') ''css   a.com'')"
proof -
  have a: "filteredBookmarks ref_platform \<lparr>search = '' css'', tag = []\<rparr> [example_css] = [example_css]"
    by code_simp
  have b: "toLowerCase ref_platform (join '' '' [title example_css, note example_css,
                                              join '' '' (tags example_css),
                                              getHostname ref_platform (url example_css)])
       = ''css   a.com''"
    by code_simp
  have c: "\<not> String_includes ''css   a.com'' (toLowerCase ref_platform '' css'')"
    by code_simp
  from a b c show ?thesis by (simp add: String_includes_sublist)
qed

end
